theory Spec2Isabelle
  imports Main "HOL-Library.Word" "HOL-Library.Signed_Division" "HOL-Library.Monad_Syntax"
    "HOL-Library.Code_Target_Nat"
begin

section \<open>Bytes and UTF-8\<close>

text \<open>
  A Go string is a sequence of bytes: \<open>len\<close> counts bytes and \<open>s[:n]\<close> slices bytes.
  It is modelled by \<open>string\<close> (a list of 8-bit characters); \<open>byte c\<close> is the numeric
  value of a byte.
\<close>

definition byte :: "char \<Rightarrow> nat" where
  "byte c = of_char c"

definition isDigit :: "char \<Rightarrow> bool" where
  "isDigit c \<longleftrightarrow> 48 \<le> byte c \<and> byte c \<le> 57"

definition digitVal :: "char \<Rightarrow> nat" where
  "digitVal c = byte c - 48"

text \<open>
  \<open>utf8.DecodeRune\<close>, reduced to what the program's callers use: the number of bytes
  the first rune takes and whether it is well formed. An ill-formed head is consumed as
  one byte (Go returns \<open>RuneError, 1\<close>). \<open>leadByte\<close> is the table \<open>first\<close> together
  with \<open>acceptRanges\<close>: the size of the encoding and the range of the second byte.
\<close>

definition leadByte :: "nat \<Rightarrow> (nat \<times> nat \<times> nat) option" where
  "leadByte b =
     (if 0xC2 \<le> b \<and> b \<le> 0xDF then Some (2, 0x80, 0xBF)
      else if b = 0xE0 then Some (3, 0xA0, 0xBF)
      else if 0xE1 \<le> b \<and> b \<le> 0xEC then Some (3, 0x80, 0xBF)
      else if b = 0xED then Some (3, 0x80, 0x9F)
      else if 0xEE \<le> b \<and> b \<le> 0xEF then Some (3, 0x80, 0xBF)
      else if b = 0xF0 then Some (4, 0x90, 0xBF)
      else if 0xF1 \<le> b \<and> b \<le> 0xF3 then Some (4, 0x80, 0xBF)
      else if b = 0xF4 then Some (4, 0x80, 0x8F)
      else None)"

definition contByte :: "char \<Rightarrow> bool" where
  "contByte c \<longleftrightarrow> 0x80 \<le> byte c \<and> byte c \<le> 0xBF"

definition DecodeRune :: "string \<Rightarrow> nat \<times> bool" where
  "DecodeRune p =
     (case p of
        [] \<Rightarrow> (0, False)
      | p0 # ps \<Rightarrow>
          if byte p0 < 0x80 then (1, True)
          else (case leadByte (byte p0) of
                  None \<Rightarrow> (1, False)
                | Some (sz, lo, hi) \<Rightarrow>
                    if length p < sz then (1, False)
                    else if byte (ps ! 0) < lo \<or> hi < byte (ps ! 0) then (1, False)
                    else if sz \<le> 2 then (2, True)
                    else if \<not> contByte (ps ! 1) then (1, False)
                    else if sz \<le> 3 then (3, True)
                    else if \<not> contByte (ps ! 2) then (1, False)
                    else (4, True)))"

text \<open>
  \<open>utf8.RuneCountInString\<close>: every well-formed encoding and every stray byte counts as
  one rune. The first argument is the number of bytes of the current rune still to skip.
\<close>

fun runeCount :: "nat \<Rightarrow> string \<Rightarrow> nat" where
  "runeCount k [] = 0"
| "runeCount 0 (c # cs) = Suc (runeCount (fst (DecodeRune (c # cs)) - 1) cs)"
| "runeCount (Suc k) (c # cs) = runeCount k cs"

definition RuneCountInString :: "string \<Rightarrow> nat" where
  "RuneCountInString s = runeCount 0 s"

text \<open>\<open>utf8.EncodeRune\<close>; surrogates and values above \<open>0x10FFFF\<close> become U+FFFD.\<close>

definition RuneError :: string where
  "RuneError = [char_of (0xEF::nat), char_of (0xBF::nat), char_of (0xBD::nat)]"

definition EncodeRune :: "nat \<Rightarrow> string" where
  "EncodeRune r =
     (if r \<le> 0x7F then [char_of r]
      else if r \<le> 0x7FF then [char_of (0xC0 + r div 64), char_of (0x80 + r mod 64)]
      else if r > 0x10FFFF \<or> (0xD800 \<le> r \<and> r \<le> 0xDFFF) then RuneError
      else if r \<le> 0xFFFF then
        [char_of (0xE0 + r div 4096), char_of (0x80 + (r div 64) mod 64), char_of (0x80 + r mod 64)]
      else
        [char_of (0xF0 + r div 262144), char_of (0x80 + (r div 4096) mod 64),
         char_of (0x80 + (r div 64) mod 64), char_of (0x80 + r mod 64)])"

section \<open>JSON text: the scanner of \<open>encoding/json\<close>\<close>

text \<open>
  \<open>json.Unmarshal\<close> first runs \<open>checkValid\<close>: a state machine that reads the input one
  byte at a time. Each state function returns the new scanner and an opcode; the opcodes
  drive the construction of the value. The datatype \<open>step\<close> names the state functions,
  \<open>parseState\<close> is the stack of open objects and arrays.
\<close>

datatype json =
    JNull
  | JBool bool
  | JNumber string
  | JString string
  | JArray "json list"
  | JObject "(string \<times> json) list"

datatype step =
    StBeginValue | StBeginValueOrEmpty | StBeginStringOrEmpty | StBeginString
  | StEndValue | StEndTop
  | StInString | StInStringEsc | StInStringEscU | StInStringEscU1 | StInStringEscU12
  | StInStringEscU123
  | StNeg | St0 | St1 | StDot | StDot0 | StE | StESign | StE0
  | StT | StTr | StTru | StF | StFa | StFal | StFals | StN | StNu | StNul
  | StError

datatype parseKind = ParseObjectKey | ParseObjectValue | ParseArrayValue

datatype opcode =
    ScanContinue | ScanBeginLiteral | ScanBeginObject | ScanObjectKey | ScanObjectValue
  | ScanEndObject | ScanBeginArray | ScanArrayValue | ScanEndArray | ScanSkipSpace
  | ScanEnd | ScanError

record scanner =
  stepFn :: step
  endTop :: bool
  parseState :: "parseKind list"

definition maxNestingDepth :: nat where
  "maxNestingDepth = 10000"

definition isSpace :: "char \<Rightarrow> bool" where
  "isSpace c \<longleftrightarrow> c = CHR '' '' \<or> c = CHR 0x09 \<or> c = CHR 0x0D \<or> c = CHR 0x0A"

definition isHex :: "char \<Rightarrow> bool" where
  "isHex c \<longleftrightarrow> isDigit c \<or> (97 \<le> byte c \<and> byte c \<le> 102) \<or> (65 \<le> byte c \<and> byte c \<le> 70)"

definition scanErr :: "scanner \<Rightarrow> scanner \<times> opcode" where
  "scanErr s = (s\<lparr>stepFn := StError\<rparr>, ScanError)"

definition goto :: "scanner \<Rightarrow> step \<Rightarrow> opcode \<Rightarrow> scanner \<times> opcode" where
  "goto s st oc = (s\<lparr>stepFn := st\<rparr>, oc)"

definition pushParseState :: "scanner \<Rightarrow> parseKind \<Rightarrow> opcode \<Rightarrow> scanner \<times> opcode" where
  "pushParseState s newParseState successState =
     (let s' = s\<lparr>parseState := newParseState # parseState s\<rparr>
      in if length (parseState s') \<le> maxNestingDepth then (s', successState) else scanErr s')"

definition popParseState :: "scanner \<Rightarrow> scanner" where
  "popParseState s =
     (let ps = tl (parseState s)
      in if ps = [] then s\<lparr>parseState := ps, stepFn := StEndTop, endTop := True\<rparr>
         else s\<lparr>parseState := ps, stepFn := StEndValue\<rparr>)"

definition stateEndTop :: "scanner \<Rightarrow> char \<Rightarrow> scanner \<times> opcode" where
  "stateEndTop s c = (if \<not> isSpace c then (s\<lparr>stepFn := StError\<rparr>, ScanEnd) else (s, ScanEnd))"

definition stateEndValue :: "scanner \<Rightarrow> char \<Rightarrow> scanner \<times> opcode" where
  "stateEndValue s c =
     (case parseState s of
        [] \<Rightarrow> stateEndTop (s\<lparr>stepFn := StEndTop, endTop := True\<rparr>) c
      | ps # rest \<Rightarrow>
          if isSpace c then goto s StEndValue ScanSkipSpace
          else (case ps of
                  ParseObjectKey \<Rightarrow>
                    if c = CHR '':'' then
                      goto (s\<lparr>parseState := ParseObjectValue # rest\<rparr>) StBeginValue ScanObjectKey
                    else scanErr s
                | ParseObjectValue \<Rightarrow>
                    if c = CHR '','' then
                      goto (s\<lparr>parseState := ParseObjectKey # rest\<rparr>) StBeginString ScanObjectValue
                    else if c = CHR ''}'' then (popParseState s, ScanEndObject)
                    else scanErr s
                | ParseArrayValue \<Rightarrow>
                    if c = CHR '','' then goto s StBeginValue ScanArrayValue
                    else if c = CHR '']'' then (popParseState s, ScanEndArray)
                    else scanErr s))"

definition stateBeginValue :: "scanner \<Rightarrow> char \<Rightarrow> scanner \<times> opcode" where
  "stateBeginValue s c =
     (if isSpace c then (s, ScanSkipSpace)
      else if c = CHR ''{'' then
        pushParseState (s\<lparr>stepFn := StBeginStringOrEmpty\<rparr>) ParseObjectKey ScanBeginObject
      else if c = CHR ''['' then
        pushParseState (s\<lparr>stepFn := StBeginValueOrEmpty\<rparr>) ParseArrayValue ScanBeginArray
      else if c = CHR 0x22 then goto s StInString ScanBeginLiteral
      else if c = CHR ''-'' then goto s StNeg ScanBeginLiteral
      else if c = CHR ''0'' then goto s St0 ScanBeginLiteral
      else if c = CHR ''t'' then goto s StT ScanBeginLiteral
      else if c = CHR ''f'' then goto s StF ScanBeginLiteral
      else if c = CHR ''n'' then goto s StN ScanBeginLiteral
      else if 49 \<le> byte c \<and> byte c \<le> 57 then goto s St1 ScanBeginLiteral
      else scanErr s)"

definition stateBeginValueOrEmpty :: "scanner \<Rightarrow> char \<Rightarrow> scanner \<times> opcode" where
  "stateBeginValueOrEmpty s c =
     (if isSpace c then (s, ScanSkipSpace)
      else if c = CHR '']'' then stateEndValue s c
      else stateBeginValue s c)"

definition stateBeginString :: "scanner \<Rightarrow> char \<Rightarrow> scanner \<times> opcode" where
  "stateBeginString s c =
     (if isSpace c then (s, ScanSkipSpace)
      else if c = CHR 0x22 then goto s StInString ScanBeginLiteral
      else scanErr s)"

definition stateBeginStringOrEmpty :: "scanner \<Rightarrow> char \<Rightarrow> scanner \<times> opcode" where
  "stateBeginStringOrEmpty s c =
     (if isSpace c then (s, ScanSkipSpace)
      else if c = CHR ''}'' then
        stateEndValue (s\<lparr>parseState := ParseObjectValue # tl (parseState s)\<rparr>) c
      else stateBeginString s c)"

definition stateInString :: "scanner \<Rightarrow> char \<Rightarrow> scanner \<times> opcode" where
  "stateInString s c =
     (if c = CHR 0x22 then goto s StEndValue ScanContinue
      else if c = CHR 0x5C then goto s StInStringEsc ScanContinue
      else if byte c < 0x20 then scanErr s
      else (s, ScanContinue))"

definition stateInStringEsc :: "scanner \<Rightarrow> char \<Rightarrow> scanner \<times> opcode" where
  "stateInStringEsc s c =
     (if c \<in> set ''bfnrt'' \<or> c = CHR 0x5C \<or> c = CHR ''/'' \<or> c = CHR 0x22 then
        goto s StInString ScanContinue
      else if c = CHR ''u'' then goto s StInStringEscU ScanContinue
      else scanErr s)"

definition stateHex :: "step \<Rightarrow> scanner \<Rightarrow> char \<Rightarrow> scanner \<times> opcode" where
  "stateHex nxt s c = (if isHex c then goto s nxt ScanContinue else scanErr s)"

definition state0 :: "scanner \<Rightarrow> char \<Rightarrow> scanner \<times> opcode" where
  "state0 s c =
     (if c = CHR ''.'' then goto s StDot ScanContinue
      else if c = CHR ''e'' \<or> c = CHR ''E'' then goto s StE ScanContinue
      else stateEndValue s c)"

definition state1 :: "scanner \<Rightarrow> char \<Rightarrow> scanner \<times> opcode" where
  "state1 s c = (if isDigit c then goto s St1 ScanContinue else state0 s c)"

definition stateNeg :: "scanner \<Rightarrow> char \<Rightarrow> scanner \<times> opcode" where
  "stateNeg s c =
     (if c = CHR ''0'' then goto s St0 ScanContinue
      else if 49 \<le> byte c \<and> byte c \<le> 57 then goto s St1 ScanContinue
      else scanErr s)"

definition stateDot :: "scanner \<Rightarrow> char \<Rightarrow> scanner \<times> opcode" where
  "stateDot s c = (if isDigit c then goto s StDot0 ScanContinue else scanErr s)"

definition stateDot0 :: "scanner \<Rightarrow> char \<Rightarrow> scanner \<times> opcode" where
  "stateDot0 s c =
     (if isDigit c then (s, ScanContinue)
      else if c = CHR ''e'' \<or> c = CHR ''E'' then goto s StE ScanContinue
      else stateEndValue s c)"

definition stateESign :: "scanner \<Rightarrow> char \<Rightarrow> scanner \<times> opcode" where
  "stateESign s c = (if isDigit c then goto s StE0 ScanContinue else scanErr s)"

definition stateE :: "scanner \<Rightarrow> char \<Rightarrow> scanner \<times> opcode" where
  "stateE s c =
     (if c = CHR ''+'' \<or> c = CHR ''-'' then goto s StESign ScanContinue else stateESign s c)"

definition stateE0 :: "scanner \<Rightarrow> char \<Rightarrow> scanner \<times> opcode" where
  "stateE0 s c = (if isDigit c then (s, ScanContinue) else stateEndValue s c)"

definition stateWord :: "char \<Rightarrow> step \<Rightarrow> scanner \<Rightarrow> char \<Rightarrow> scanner \<times> opcode" where
  "stateWord expected nxt s c = (if c = expected then goto s nxt ScanContinue else scanErr s)"

definition scanStep :: "scanner \<Rightarrow> char \<Rightarrow> scanner \<times> opcode" where
  "scanStep s c =
     (case stepFn s of
        StBeginValue \<Rightarrow> stateBeginValue s c
      | StBeginValueOrEmpty \<Rightarrow> stateBeginValueOrEmpty s c
      | StBeginStringOrEmpty \<Rightarrow> stateBeginStringOrEmpty s c
      | StBeginString \<Rightarrow> stateBeginString s c
      | StEndValue \<Rightarrow> stateEndValue s c
      | StEndTop \<Rightarrow> stateEndTop s c
      | StInString \<Rightarrow> stateInString s c
      | StInStringEsc \<Rightarrow> stateInStringEsc s c
      | StInStringEscU \<Rightarrow> stateHex StInStringEscU1 s c
      | StInStringEscU1 \<Rightarrow> stateHex StInStringEscU12 s c
      | StInStringEscU12 \<Rightarrow> stateHex StInStringEscU123 s c
      | StInStringEscU123 \<Rightarrow> stateHex StInString s c
      | StNeg \<Rightarrow> stateNeg s c
      | St0 \<Rightarrow> state0 s c
      | St1 \<Rightarrow> state1 s c
      | StDot \<Rightarrow> stateDot s c
      | StDot0 \<Rightarrow> stateDot0 s c
      | StE \<Rightarrow> stateE s c
      | StESign \<Rightarrow> stateESign s c
      | StE0 \<Rightarrow> stateE0 s c
      | StT \<Rightarrow> stateWord (CHR ''r'') StTr s c
      | StTr \<Rightarrow> stateWord (CHR ''u'') StTru s c
      | StTru \<Rightarrow> stateWord (CHR ''e'') StEndValue s c
      | StF \<Rightarrow> stateWord (CHR ''a'') StFa s c
      | StFa \<Rightarrow> stateWord (CHR ''l'') StFal s c
      | StFal \<Rightarrow> stateWord (CHR ''s'') StFals s c
      | StFals \<Rightarrow> stateWord (CHR ''e'') StEndValue s c
      | StN \<Rightarrow> stateWord (CHR ''u'') StNu s c
      | StNu \<Rightarrow> stateWord (CHR ''l'') StNul s c
      | StNul \<Rightarrow> stateWord (CHR ''l'') StEndValue s c
      | StError \<Rightarrow> (s, ScanError))"

definition scanner_reset :: scanner where
  "scanner_reset = \<lparr>stepFn = StBeginValue, endTop = False, parseState = []\<rparr>"


text \<open>
  \<open>unquote\<close> turns the text between the quotes of a string literal into the bytes of
  the Go string: escapes are replaced, a \<open>\u\<close> escape becomes the UTF-8 encoding of its
  code point and the six bytes of the escape are skipped (a surrogate pair is combined and
  its twelve bytes are skipped, a lone surrogate becomes U+FFFD), and every byte that is
  not part of well-formed UTF-8 becomes U+FFFD. The first argument counts the bytes of
  the current well-formed rune that are still to be copied.
\<close>

definition hexVal :: "char \<Rightarrow> nat" where
  "hexVal c =
     (if isDigit c then byte c - 48
      else if 97 \<le> byte c \<and> byte c \<le> 102 then byte c - 87
      else byte c - 55)"

definition getu4 :: "string \<Rightarrow> nat option" where
  "getu4 s =
     (case s of
        b # u # h1 # h2 # h3 # h4 # rest \<Rightarrow>
          if b = CHR 0x5C \<and> u = CHR ''u'' \<and> isHex h1 \<and> isHex h2 \<and> isHex h3 \<and> isHex h4 then
            Some (hexVal h1 * 4096 + hexVal h2 * 256 + hexVal h3 * 16 + hexVal h4)
          else None
      | _ \<Rightarrow> None)"

definition IsSurrogate :: "nat \<Rightarrow> bool" where
  "IsSurrogate r \<longleftrightarrow> 0xD800 \<le> r \<and> r < 0xE000"

definition utf16_DecodeRune :: "nat \<Rightarrow> nat option \<Rightarrow> nat option" where
  "utf16_DecodeRune r1 r2 =
     (case r2 of
        None \<Rightarrow> None
      | Some r2' \<Rightarrow>
          if 0xD800 \<le> r1 \<and> r1 < 0xDC00 \<and> 0xDC00 \<le> r2' \<and> r2' < 0xE000 then
            Some ((r1 - 0xD800) * 1024 + (r2' - 0xDC00) + 0x10000)
          else None)"

fun unquoteBytes :: "nat \<Rightarrow> string \<Rightarrow> string option" where
  "unquoteBytes k [] = Some []"
| "unquoteBytes (Suc k) (c # cs) = map_option ((#) c) (unquoteBytes k cs)"
| "unquoteBytes 0 (c # cs) =
     (if c = CHR 0x5C then
        (case cs of
           [] \<Rightarrow> None
         | e # rest \<Rightarrow>
             if e = CHR 0x22 \<or> e = CHR 0x5C \<or> e = CHR ''/'' \<or> e = CHR 0x27 then
               map_option ((#) e) (unquoteBytes 0 rest)
             else if e = CHR ''b'' then map_option ((#) (CHR 0x08)) (unquoteBytes 0 rest)
             else if e = CHR ''f'' then map_option ((#) (CHR 0x0C)) (unquoteBytes 0 rest)
             else if e = CHR ''n'' then map_option ((#) (CHR 0x0A)) (unquoteBytes 0 rest)
             else if e = CHR ''r'' then map_option ((#) (CHR 0x0D)) (unquoteBytes 0 rest)
             else if e = CHR ''t'' then map_option ((#) (CHR 0x09)) (unquoteBytes 0 rest)
             else if e = CHR ''u'' then
               (case getu4 (c # cs) of
                  None \<Rightarrow> None
                | Some rr \<Rightarrow>
                    if IsSurrogate rr then
                      (case utf16_DecodeRune rr (getu4 (drop 5 cs)) of
                         Some dec \<Rightarrow>
                           map_option ((@) (EncodeRune dec)) (unquoteBytes 0 (drop 11 cs))
                       | None \<Rightarrow> map_option ((@) RuneError) (unquoteBytes 0 (drop 5 cs)))
                    else map_option ((@) (EncodeRune rr)) (unquoteBytes 0 (drop 5 cs)))
             else None)
      else if c = CHR 0x22 \<or> byte c < 0x20 then None
      else if byte c < 0x80 then map_option ((#) c) (unquoteBytes 0 cs)
      else (case DecodeRune (c # cs) of
              (n, True) \<Rightarrow> map_option ((#) c) (unquoteBytes (n - 1) cs)
            | (n, False) \<Rightarrow> map_option ((@) RuneError) (unquoteBytes 0 cs)))"

definition unquote :: "string \<Rightarrow> string option" where
  "unquote s =
     (if length s < 2 \<or> hd s \<noteq> CHR 0x22 \<or> last s \<noteq> CHR 0x22 then None
      else unquoteBytes 0 (butlast (tl s)))"

text \<open>
  The value of a literal, from its text: \<open>d.literalStore\<close> and \<open>d.literalInterface\<close>
  look at the first byte. A number keeps its text; the field it is stored into decides
  how it is converted.
\<close>

definition literalValue :: "string \<Rightarrow> json option" where
  "literalValue item =
     (case item of
        [] \<Rightarrow> None
      | c # cs \<Rightarrow>
          if c = CHR ''n'' then Some JNull
          else if c = CHR ''t'' then Some (JBool True)
          else if c = CHR ''f'' then Some (JBool False)
          else if c = CHR 0x22 then map_option JString (unquote item)
          else Some (JNumber item))"

text \<open>
  The value is assembled from the opcodes, as the decoder does while it walks the input
  with the scanner: a literal runs from \<open>ScanBeginLiteral\<close> over every \<open>ScanContinue\<close>;
  \<open>frames\<close> holds the arrays and objects still open, innermost first, an object with
  the key that waits for its value.
\<close>

datatype frame =
    ArrayFrame "json list"
  | ObjectFrame "(string \<times> json) list" "string option"

record decodeState =
  frames :: "frame list"
  literal :: "string option"
  result :: "json option"
  broken :: bool

definition addValue :: "json \<Rightarrow> decodeState \<Rightarrow> decodeState" where
  "addValue v d =
     (case frames d of
        [] \<Rightarrow> d\<lparr>result := Some v\<rparr>
      | ArrayFrame xs # fs \<Rightarrow> d\<lparr>frames := ArrayFrame (xs @ [v]) # fs\<rparr>
      | ObjectFrame kvs (Some k) # fs \<Rightarrow> d\<lparr>frames := ObjectFrame (kvs @ [(k, v)]) None # fs\<rparr>
      | ObjectFrame kvs None # fs \<Rightarrow>
          (case v of
             JString k \<Rightarrow> d\<lparr>frames := ObjectFrame kvs (Some k) # fs\<rparr>
           | _ \<Rightarrow> d\<lparr>broken := True\<rparr>))"

definition endLiteral :: "decodeState \<Rightarrow> decodeState" where
  "endLiteral d =
     (case literal d of
        None \<Rightarrow> d
      | Some item \<Rightarrow>
          (case literalValue item of
             None \<Rightarrow> d\<lparr>literal := None, broken := True\<rparr>
           | Some v \<Rightarrow> addValue v (d\<lparr>literal := None\<rparr>)))"

definition closeFrame :: "decodeState \<Rightarrow> decodeState" where
  "closeFrame d =
     (case frames d of
        [] \<Rightarrow> d\<lparr>broken := True\<rparr>
      | ArrayFrame xs # fs \<Rightarrow> addValue (JArray xs) (d\<lparr>frames := fs\<rparr>)
      | ObjectFrame kvs k # fs \<Rightarrow> addValue (JObject kvs) (d\<lparr>frames := fs\<rparr>))"

definition decodeOp :: "char \<Rightarrow> opcode \<Rightarrow> decodeState \<Rightarrow> decodeState" where
  "decodeOp c oc d =
     (case oc of
        ScanBeginLiteral \<Rightarrow> d\<lparr>literal := Some [c]\<rparr>
      | ScanContinue \<Rightarrow> d\<lparr>literal := map_option (\<lambda>item. item @ [c]) (literal d)\<rparr>
      | ScanBeginObject \<Rightarrow> (endLiteral d)\<lparr>frames := ObjectFrame [] None # frames (endLiteral d)\<rparr>
      | ScanBeginArray \<Rightarrow> (endLiteral d)\<lparr>frames := ArrayFrame [] # frames (endLiteral d)\<rparr>
      | ScanEndObject \<Rightarrow> closeFrame (endLiteral d)
      | ScanEndArray \<Rightarrow> closeFrame (endLiteral d)
      | _ \<Rightarrow> endLiteral d)"

text \<open>
  \<open>checkValid\<close> and the walk over the input in one pass. At the end of the input the
  scanner is fed one space (\<open>scanner.eof\<close>), which ends a number that was still open.
\<close>

fun scanAll :: "scanner \<Rightarrow> decodeState \<Rightarrow> string \<Rightarrow> (scanner \<times> decodeState) option" where
  "scanAll s d [] = Some (s, d)"
| "scanAll s d (c # cs) =
     (case scanStep s c of
        (s', oc) \<Rightarrow> if oc = ScanError then None else scanAll s' (decodeOp c oc d) cs)"

definition scanner_eof :: "scanner \<times> decodeState \<Rightarrow> decodeState option" where
  "scanner_eof sd =
     (case sd of
        (s, d) \<Rightarrow>
          if stepFn s = StError then None
          else if endTop s then Some d
          else (case scanStep s (CHR '' '') of
                  (s', oc) \<Rightarrow> if endTop s' then Some (decodeOp (CHR '' '') oc d) else None))"

definition json_parse :: "string \<Rightarrow> json option" where
  "json_parse data =
     (case scanAll scanner_reset \<lparr>frames = [], literal = None, result = None, broken = False\<rparr> data of
        None \<Rightarrow> None
      | Some sd \<Rightarrow>
          (case scanner_eof sd of
             None \<Rightarrow> None
           | Some d \<Rightarrow> if broken d then None else result d))"


section \<open>Numbers: \<open>strconv\<close>\<close>

text \<open>
  \<open>strconv.ParseInt(s, 10, 64)\<close>: an optional sign and decimal digits, in the range of
  \<open>int64\<close>. The program is built for 64-bit targets, where \<open>int\<close> has 64 bits too.
\<close>

fun decimal :: "nat \<Rightarrow> string \<Rightarrow> nat" where
  "decimal acc [] = acc"
| "decimal acc (c # cs) = decimal (acc * 10 + digitVal c) cs"

definition ParseInt :: "string \<Rightarrow> int option" where
  "ParseInt s =
     (let neg = (s \<noteq> [] \<and> hd s = CHR ''-'');
          ds = (if s \<noteq> [] \<and> (hd s = CHR ''-'' \<or> hd s = CHR ''+'') then tl s else s);
          n = int (decimal 0 ds);
          v = (if neg then - n else n)
      in if ds \<noteq> [] \<and> list_all isDigit ds \<and> - (2 ^ 63) \<le> v \<and> v < 2 ^ 63 then Some v else None)"

text \<open>
  \<open>strconv.ParseFloat(s, 64)\<close> on the text of a JSON number, as far as the program can
  observe it: whether it reports a range error. By its documentation that is the case when
  the number is more than half a unit in the last place beyond the largest \<open>float64\<close>,
  that is when its magnitude reaches \<open>2^1024 - 2^970\<close>. \<open>mantissaExp\<close> reads the literal
  as \<open>m * 10^e\<close>.
\<close>

definition mantissaExp :: "string \<Rightarrow> nat \<times> int" where
  "mantissaExp s =
     (let u = (if s \<noteq> [] \<and> hd s = CHR ''-'' then tl s else s);
          ip = takeWhile isDigit u;
          r1 = dropWhile isDigit u;
          fp = (if r1 \<noteq> [] \<and> hd r1 = CHR ''.'' then takeWhile isDigit (tl r1) else []);
          r2 = (if r1 \<noteq> [] \<and> hd r1 = CHR ''.'' then dropWhile isDigit (tl r1) else r1);
          r3 = (if r2 \<noteq> [] then tl r2 else []);
          eneg = (r3 \<noteq> [] \<and> hd r3 = CHR ''-'');
          ed = (if r3 \<noteq> [] \<and> (hd r3 = CHR ''-'' \<or> hd r3 = CHR ''+'') then tl r3 else r3);
          e = int (decimal 0 ed)
      in (decimal 0 (ip @ fp), (if eneg then - e else e) - int (length fp)))"

definition floatRangeError :: "string \<Rightarrow> bool" where
  "floatRangeError s =
     (case mantissaExp s of
        (m, e) \<Rightarrow>
          if 0 \<le> e then 2 ^ 1024 - 2 ^ 970 \<le> m * 10 ^ nat e
          else (2 ^ 1024 - 2 ^ 970) * 10 ^ nat (- e) \<le> m)"

section \<open>Decoding into a Go value\<close>

datatype error =
    SyntaxError
  | UnmarshalTypeError string
  | ErrTooLong
  | PathError string

text \<open>
  The decoder works by reflection on the type of its target. \<open>gotype\<close> describes the
  types that occur in \<open>LogEntry\<close> (a struct lists its fields with the names of their
  \<open>json\<close> tags), \<open>goval\<close> the values of these types. A value of type \<open>interface{}\<close>
  is \<open>nil\<close> or holds what \<open>d.valueInterface\<close> builds from a JSON value; it is
  represented by that JSON value.
\<close>

datatype gotype =
    StringT
  | IntT
  | Int64T
  | InterfaceT
  | StructT "(string \<times> gotype) list"

datatype goval =
    StringV string
  | IntV "64 word"
  | InterfaceV "json option"
  | StructV "(string \<times> goval) list"

fun zeroValue :: "gotype \<Rightarrow> goval"
  and zeroFields :: "(string \<times> gotype) list \<Rightarrow> (string \<times> goval) list" where
  "zeroValue StringT = StringV []"
| "zeroValue IntT = IntV 0"
| "zeroValue Int64T = IntV 0"
| "zeroValue InterfaceT = InterfaceV None"
| "zeroValue (StructT fs) = StructV (zeroFields fs)"
| "zeroFields [] = []"
| "zeroFields (f # fs) = (fst f, zeroValue (snd f)) # zeroFields fs"

text \<open>
  Field lookup (\<open>d.object\<close>): the key as written, else the first field whose name is
  equal to the key under \<open>foldName\<close>. The field names are ASCII; besides the ASCII
  letters, the only runes that fold onto an ASCII letter are U+017F (onto S) and U+212A
  (onto K).
\<close>

fun foldName :: "string \<Rightarrow> string" where
  "foldName [] = []"
| "foldName (c # cs) =
     (if 97 \<le> byte c \<and> byte c \<le> 122 then char_of (byte c - 32) # foldName cs
      else if byte c = 0xC5 \<and> cs \<noteq> [] \<and> byte (hd cs) = 0xBF then CHR ''S'' # foldName (tl cs)
      else if byte c = 0xE2 \<and> length cs \<ge> 2 \<and> byte (cs ! 0) = 0x84 \<and> byte (cs ! 1) = 0xAA then
        CHR ''K'' # foldName (drop 2 cs)
      else c # foldName cs)"

definition findField :: "(string \<times> 'a) list \<Rightarrow> string \<Rightarrow> string option" where
  "findField fs key =
     (if key \<in> set (map fst fs) then Some key
      else map_option fst (find (\<lambda>f. foldName (fst f) = foldName key) fs))"

text \<open>
  The first range error among the numbers of a JSON value that is stored into an
  \<open>interface{}\<close> (\<open>d.convertNumber\<close> in \<open>d.literalInterface\<close>).
\<close>

definition firstError :: "error option \<Rightarrow> error option \<Rightarrow> error option" where
  "firstError a b = (case a of None \<Rightarrow> b | Some e \<Rightarrow> Some e)"

fun interfaceError :: "json \<Rightarrow> error option"
  and interfaceErrors :: "json list \<Rightarrow> error option"
  and memberErrors :: "(string \<times> json) list \<Rightarrow> error option" where
  "interfaceError JNull = None"
| "interfaceError (JBool b) = None"
| "interfaceError (JString s) = None"
| "interfaceError (JNumber s) =
     (if floatRangeError s then Some (UnmarshalTypeError (''number '' @ s)) else None)"
| "interfaceError (JArray xs) = interfaceErrors xs"
| "interfaceError (JObject kvs) = memberErrors kvs"
| "interfaceErrors [] = None"
| "interfaceErrors (x # xs) = firstError (interfaceError x) (interfaceErrors xs)"
| "memberErrors [] = None"
| "memberErrors (kv # kvs) = firstError (interfaceError (snd kv)) (memberErrors kvs)"

text \<open>
  \<open>d.value\<close>: store a JSON value into a Go value of the given type. The result is the
  new value and the error the decoder saves, if any; after an error the decoder goes on
  with the next field, and \<open>Unmarshal\<close> returns the first saved error at the end.
  \<open>null\<close> resets an interface and leaves everything else as it is; a key that names no
  field is skipped.
\<close>

fun setField :: "(string \<times> goval) list \<Rightarrow> string \<Rightarrow> goval \<Rightarrow> (string \<times> goval) list" where
  "setField [] k v = []"
| "setField (f # fs) k v = (if fst f = k then (k, v) # fs else f # setField fs k v)"

definition fieldsOf :: "goval \<Rightarrow> (string \<times> goval) list" where
  "fieldsOf v = (case v of StructV vs \<Rightarrow> vs | _ \<Rightarrow> [])"

definition getField :: "(string \<times> goval) list \<Rightarrow> string \<Rightarrow> goval" where
  "getField vs k = (case map_of vs k of Some v \<Rightarrow> v | None \<Rightarrow> StructV [])"

fun store :: "gotype \<Rightarrow> json \<Rightarrow> goval \<Rightarrow> goval \<times> error option"
  and object :: "(string \<times> gotype) list \<Rightarrow> (string \<times> json) list \<Rightarrow> (string \<times> goval) list
    \<Rightarrow> (string \<times> goval) list \<times> error option" where
  "store t JNull v = (case t of InterfaceT \<Rightarrow> (InterfaceV None, None) | _ \<Rightarrow> (v, None))"
| "store t (JBool b) v =
     (case t of
        InterfaceT \<Rightarrow> (InterfaceV (Some (JBool b)), None)
      | _ \<Rightarrow> (v, Some (UnmarshalTypeError ''bool'')))"
| "store t (JString s) v =
     (case t of
        StringT \<Rightarrow> (StringV s, None)
      | InterfaceT \<Rightarrow> (InterfaceV (Some (JString s)), None)
      | _ \<Rightarrow> (v, Some (UnmarshalTypeError ''string'')))"
| "store t (JNumber s) v =
     (case t of
        InterfaceT \<Rightarrow>
          if floatRangeError s then (v, Some (UnmarshalTypeError (''number '' @ s)))
          else (InterfaceV (Some (JNumber s)), None)
      | IntT \<Rightarrow>
          (case ParseInt s of
             Some n \<Rightarrow> (IntV (word_of_int n), None)
           | None \<Rightarrow> (v, Some (UnmarshalTypeError (''number '' @ s))))
      | Int64T \<Rightarrow>
          (case ParseInt s of
             Some n \<Rightarrow> (IntV (word_of_int n), None)
           | None \<Rightarrow> (v, Some (UnmarshalTypeError (''number '' @ s))))
      | _ \<Rightarrow> (v, Some (UnmarshalTypeError ''number'')))"
| "store t (JArray xs) v =
     (case t of
        InterfaceT \<Rightarrow> (InterfaceV (Some (JArray xs)), interfaceErrors xs)
      | _ \<Rightarrow> (v, Some (UnmarshalTypeError ''array'')))"
| "store t (JObject kvs) v =
     (case t of
        InterfaceT \<Rightarrow> (InterfaceV (Some (JObject kvs)), memberErrors kvs)
      | StructT fs \<Rightarrow> (case object fs kvs (fieldsOf v) of (vs', e) \<Rightarrow> (StructV vs', e))
      | _ \<Rightarrow> (v, Some (UnmarshalTypeError ''object'')))"
| "object fs [] vs = (vs, None)"
| "object fs (kv # kvs) vs =
     (case findField fs (fst kv) of
        None \<Rightarrow> object fs kvs vs
      | Some name \<Rightarrow>
          (case map_of fs name of
             None \<Rightarrow> object fs kvs vs
           | Some t \<Rightarrow>
               (case store t (snd kv) (getField vs name) of
                  (v', e) \<Rightarrow>
                    (case object fs kvs (setField vs name v') of
                       (vs', e') \<Rightarrow> (vs', firstError e e')))))"


section \<open>The log record\<close>

text \<open>
  \<open>LogEntry\<close> and its anonymous struct fields, one record for each struct. The two
  \<open>Body\<close> structs are the same Go type.
\<close>

record Destination =
  Domain :: string

record Event =
  Duration :: "64 word"

record Body =
  Bytes :: "64 word"

record Request =
  Body :: Body
  ID :: string
  Method :: string
  Time :: string

record Response =
  Body :: Body
  MimeType :: string
  StatusCode :: "64 word"

record HTTP =
  Request :: Request
  Response :: Response
  Version :: string

record File =
  Line :: "64 word"
  Name :: string

record Origin =
  File :: File
  Function :: string

record Log =
  Logger :: string
  Original :: string
  Origin :: Origin

record Thread =
  ID :: "64 word"
  Name :: string

record Process =
  Name :: string
  PID :: "64 word"
  Thread :: Thread

record Service =
  Version :: string

record Source =
  IP :: string

record URL =
  Domain :: string
  Path :: string
  PathTemplate :: string
  Port :: "64 word"
  Query :: string
  Scheme :: string

record UserAgent =
  Original :: string

record LogEntry =
  Timestamp :: string
  Level :: string
  Message :: string
  Category :: string
  Error :: "json option"
  Destination :: Destination
  Event :: Event
  HTTP :: HTTP
  Log :: Log
  Process :: Process
  Service :: Service
  Source :: Source
  Span :: "json option"
  Trace :: "json option"
  URL :: URL
  UserAgent :: UserAgent
  Version :: string

text \<open>The type of \<open>LogEntry\<close> as reflection sees it: the fields under their tags.\<close>

definition Body_type :: gotype where
  "Body_type = StructT [(''bytes'', IntT)]"

definition LogEntry_fields :: "(string \<times> gotype) list" where
  "LogEntry_fields =
     [(''@timestamp'', StringT),
      (''log.level'', StringT),
      (''message'', StringT),
      (''category'', StringT),
      (''error'', InterfaceT),
      (''destination'', StructT [(''domain'', StringT)]),
      (''event'', StructT [(''duration'', Int64T)]),
      (''http'', StructT
         [(''request'', StructT
             [(''body'', Body_type), (''id'', StringT), (''method'', StringT), (''time'', StringT)]),
          (''response'', StructT
             [(''body'', Body_type), (''mime_type'', StringT), (''status_code'', IntT)]),
          (''version'', StringT)]),
      (''log'', StructT
         [(''logger'', StringT),
          (''original'', StringT),
          (''origin'', StructT
             [(''file'', StructT [(''line'', IntT), (''name'', StringT)]),
              (''function'', StringT)])]),
      (''process'', StructT
         [(''name'', StringT),
          (''pid'', IntT),
          (''thread'', StructT [(''id'', Int64T), (''name'', StringT)])]),
      (''service'', StructT [(''version'', StringT)]),
      (''source'', StructT [(''ip'', StringT)]),
      (''span'', InterfaceT),
      (''trace'', InterfaceT),
      (''url'', StructT
         [(''domain'', StringT), (''path'', StringT), (''path_template'', StringT),
          (''port'', IntT), (''query'', StringT), (''scheme'', StringT)]),
      (''user_agent'', StructT [(''original'', StringT)]),
      (''version'', StringT)]"

definition LogEntry_type :: gotype where
  "LogEntry_type = StructT LogEntry_fields"

text \<open>Reading the struct out of the reflected value.\<close>

definition sub :: "goval \<Rightarrow> string \<Rightarrow> goval" where
  "sub v k = getField (fieldsOf v) k"

definition str :: "goval \<Rightarrow> string \<Rightarrow> string" where
  "str v k = (case sub v k of StringV s \<Rightarrow> s | _ \<Rightarrow> [])"

definition num :: "goval \<Rightarrow> string \<Rightarrow> 64 word" where
  "num v k = (case sub v k of IntV n \<Rightarrow> n | _ \<Rightarrow> 0)"

definition iface :: "goval \<Rightarrow> string \<Rightarrow> json option" where
  "iface v k = (case sub v k of InterfaceV x \<Rightarrow> x | _ \<Rightarrow> None)"

definition Body_of :: "goval \<Rightarrow> Body" where
  "Body_of v = \<lparr>Bytes = num v ''bytes''\<rparr>"

definition LogEntry_of :: "goval \<Rightarrow> LogEntry" where
  "LogEntry_of v =
     \<lparr>Timestamp = str v ''@timestamp'',
      Level = str v ''log.level'',
      Message = str v ''message'',
      Category = str v ''category'',
      Error = iface v ''error'',
      Destination = \<lparr>Destination.Domain = str (sub v ''destination'') ''domain''\<rparr>,
      Event = \<lparr>Duration = num (sub v ''event'') ''duration''\<rparr>,
      HTTP =
        \<lparr>Request =
           \<lparr>Request.Body = Body_of (sub (sub (sub v ''http'') ''request'') ''body''),
            Request.ID = str (sub (sub v ''http'') ''request'') ''id'',
            Method = str (sub (sub v ''http'') ''request'') ''method'',
            Time = str (sub (sub v ''http'') ''request'') ''time''\<rparr>,
         Response =
           \<lparr>Response.Body = Body_of (sub (sub (sub v ''http'') ''response'') ''body''),
            MimeType = str (sub (sub v ''http'') ''response'') ''mime_type'',
            StatusCode = num (sub (sub v ''http'') ''response'') ''status_code''\<rparr>,
         HTTP.Version = str (sub v ''http'') ''version''\<rparr>,
      Log =
        \<lparr>Logger = str (sub v ''log'') ''logger'',
         Log.Original = str (sub v ''log'') ''original'',
         Origin =
           \<lparr>File =
              \<lparr>Line = num (sub (sub (sub v ''log'') ''origin'') ''file'') ''line'',
               File.Name = str (sub (sub (sub v ''log'') ''origin'') ''file'') ''name''\<rparr>,
            Function = str (sub (sub v ''log'') ''origin'') ''function''\<rparr>\<rparr>,
      Process =
        \<lparr>Process.Name = str (sub v ''process'') ''name'',
         PID = num (sub v ''process'') ''pid'',
         Thread =
           \<lparr>Thread.ID = num (sub (sub v ''process'') ''thread'') ''id'',
            Thread.Name = str (sub (sub v ''process'') ''thread'') ''name''\<rparr>\<rparr>,
      Service = \<lparr>Service.Version = str (sub v ''service'') ''version''\<rparr>,
      Source = \<lparr>IP = str (sub v ''source'') ''ip''\<rparr>,
      Span = iface v ''span'',
      Trace = iface v ''trace'',
      URL =
        \<lparr>URL.Domain = str (sub v ''url'') ''domain'',
         Path = str (sub v ''url'') ''path'',
         PathTemplate = str (sub v ''url'') ''path_template'',
         Port = num (sub v ''url'') ''port'',
         Query = str (sub v ''url'') ''query'',
         Scheme = str (sub v ''url'') ''scheme''\<rparr>,
      UserAgent = \<lparr>UserAgent.Original = str (sub v ''user_agent'') ''original''\<rparr>,
      LogEntry.Version = str v ''version''\<rparr>"

text \<open>
  \<open>json.Unmarshal([]byte(line), &logEntry)\<close> with a fresh \<open>logEntry\<close>: a syntax error
  from \<open>checkValid\<close>, else the first error saved while decoding, else the record.
\<close>

definition json_Unmarshal :: "string \<Rightarrow> error + LogEntry" where
  "json_Unmarshal data =
     (case json_parse data of
        None \<Rightarrow> Inl SyntaxError
      | Some j \<Rightarrow>
          (case store LogEntry_type j (zeroValue LogEntry_type) of
             (v, Some err) \<Rightarrow> Inl err
           | (v, None) \<Rightarrow> Inr (LogEntry_of v)))"


section \<open>Time: \<open>time.Parse\<close> and \<open>Time.Format\<close>\<close>

text \<open>
  A \<open>time.Time\<close> is represented by its reading in its own location: the date, the
  clock and the offset of the zone in seconds. \<open>time.Now()\<close> is an input of the model.
\<close>

record Time =
  Year :: nat
  Month :: nat
  Day :: nat
  Hour :: nat
  Minute :: nat
  Second :: nat
  Nanosecond :: nat
  Offset :: int

definition RFC3339 :: string where
  "RFC3339 = ''2006-01-02T15:04:05Z07:00''"

definition check :: "bool \<Rightarrow> unit option" where
  "check b = (if b then Some () else None)"

definition isDigitAt :: "string \<Rightarrow> nat \<Rightarrow> bool" where
  "isDigitAt s i \<longleftrightarrow> i < length s \<and> isDigit (s ! i)"

definition getnum :: "string \<Rightarrow> bool \<Rightarrow> (nat \<times> string) option" where
  "getnum s fixed =
     (if \<not> isDigitAt s 0 then None
      else if \<not> isDigitAt s 1 then
        (if fixed then None else Some (digitVal (s ! 0), drop 1 s))
      else Some (digitVal (s ! 0) * 10 + digitVal (s ! 1), drop 2 s))"

definition skip :: "string \<Rightarrow> char \<Rightarrow> string option" where
  "skip v prefix = (case v of [] \<Rightarrow> None | c # cs \<Rightarrow> if c = prefix then Some cs else None)"

definition parseYear :: "string \<Rightarrow> (nat \<times> string) option" where
  "parseYear v =
     (if length v < 4 \<or> \<not> list_all isDigit (take 4 v) then None
      else Some (decimal 0 (take 4 v), drop 4 v))"

definition commaOrPeriod :: "char \<Rightarrow> bool" where
  "commaOrPeriod c \<longleftrightarrow> c = CHR ''.'' \<or> c = CHR '',''"

definition parseNanoseconds :: "string \<Rightarrow> nat" where
  "parseNanoseconds ds = decimal 0 (take 9 ds) * 10 ^ (9 - length (take 9 ds))"

definition parseFraction :: "string \<Rightarrow> nat \<times> string" where
  "parseFraction v =
     (if length v \<ge> 2 \<and> commaOrPeriod (v ! 0) \<and> isDigitAt v 1 then
        (parseNanoseconds (takeWhile isDigit (tl v)), dropWhile isDigit (tl v))
      else (0, v))"

definition parseZone :: "string \<Rightarrow> (int \<times> string) option" where
  "parseZone v =
     (if v \<noteq> [] \<and> hd v = CHR ''Z'' then Some (0, tl v)
      else if length v < 6 \<or> v ! 3 \<noteq> CHR '':'' then None
      else do {
        (hr, r1) \<leftarrow> getnum (take 2 (drop 1 v)) True;
        (mm, r2) \<leftarrow> getnum (take 2 (drop 4 v)) True;
        _ \<leftarrow> check (v ! 0 = CHR ''+'' \<or> v ! 0 = CHR ''-'');
        Some ((if v ! 0 = CHR ''-'' then - 1 else 1) * int ((hr * 60 + mm) * 60), drop 6 v)
      })"

definition isLeap :: "nat \<Rightarrow> bool" where
  "isLeap year \<longleftrightarrow> year mod 4 = 0 \<and> (year mod 100 \<noteq> 0 \<or> year mod 400 = 0)"

definition daysIn :: "nat \<Rightarrow> nat \<Rightarrow> nat" where
  "daysIn m year =
     (if m = 2 then (if isLeap year then 29 else 28)
      else if m = 4 \<or> m = 6 \<or> m = 9 \<or> m = 11 then 30
      else 31)"

text \<open>
  \<open>time.Parse(time.RFC3339, value)\<close>, as Go 1.21 (the version the repository asks for)
  reads this layout: a four-digit year, two-digit month and day, an hour of one or two
  digits, two-digit minute and second, an optional fraction after a period or a comma
  (digits beyond the ninth are dropped), and \<open>Z\<close> or a numeric offset: a sign, two
  digits, a colon and two digits, on which this version puts no bound. \<open>None\<close> is a
  returned error.
\<close>

definition time_Parse_RFC3339 :: "string \<Rightarrow> Time option" where
  "time_Parse_RFC3339 v0 = do {
     (year, v1) \<leftarrow> parseYear v0;
     v2 \<leftarrow> skip v1 (CHR ''-'');
     (month, v3) \<leftarrow> getnum v2 True;
     _ \<leftarrow> check (1 \<le> month \<and> month \<le> 12);
     v4 \<leftarrow> skip v3 (CHR ''-'');
     (day, v5) \<leftarrow> getnum v4 True;
     v6 \<leftarrow> skip v5 (CHR ''T'');
     (hour, v7) \<leftarrow> getnum v6 False;
     _ \<leftarrow> check (hour < 24);
     v8 \<leftarrow> skip v7 (CHR '':'');
     (minute, v9) \<leftarrow> getnum v8 True;
     _ \<leftarrow> check (minute < 60);
     v10 \<leftarrow> skip v9 (CHR '':'');
     (sec, v11) \<leftarrow> getnum v10 True;
     _ \<leftarrow> check (sec < 60);
     (nsec, v12) \<leftarrow> Some (parseFraction v11);
     (offset, v13) \<leftarrow> parseZone v12;
     _ \<leftarrow> check (v13 = []);
     _ \<leftarrow> check (1 \<le> day \<and> day \<le> daysIn month year);
     Some \<lparr>Year = year, Month = month, Day = day, Hour = hour, Minute = minute,
            Second = sec, Nanosecond = nsec, Offset = offset\<rparr>
   }"

text \<open>Decimal digits of a number (\<open>strconv.Itoa\<close>, \<open>%d\<close>, and \<open>appendInt\<close> of the time package).\<close>

definition digitChar :: "nat \<Rightarrow> char" where
  "digitChar d = ''0123456789'' ! d"

fun showNat :: "nat \<Rightarrow> string" where
  "showNat n = (if n < 10 then [digitChar n] else showNat (n div 10) @ [digitChar (n mod 10)])"

declare showNat.simps [simp del]

definition showInt :: "int \<Rightarrow> string" where
  "showInt i = (if i < 0 then CHR ''-'' # showNat (nat (- i)) else showNat (nat i))"

definition appendInt :: "nat \<Rightarrow> nat \<Rightarrow> string" where
  "appendInt x width = replicate (width - length (showNat x)) (CHR ''0'') @ showNat x"

text \<open>
  \<open>Time.Format\<close> for the two layouts of the program: hour, minute and second with two
  digits each, and for \<open>.000\<close> the first three of the nine digits of the nanosecond.
  \<open>None\<close> stands for a layout that is not modelled.
\<close>

definition Format_sec :: "Time \<Rightarrow> string" where
  "Format_sec t = appendInt (Hour t) 2 @ '':'' @ appendInt (Minute t) 2 @ '':'' @ appendInt (Second t) 2"

definition Format_milli :: "Time \<Rightarrow> string" where
  "Format_milli t = Format_sec t @ ''.'' @ take 3 (appendInt (Nanosecond t) 9)"

definition Time_Format :: "Time \<Rightarrow> string \<Rightarrow> string option" where
  "Time_Format t layout =
     (if layout = ''15:04:05.000'' then Some (Format_milli t)
      else if layout = ''15:04:05'' then Some (Format_sec t)
      else None)"

section \<open>Formatted output: \<open>fmt\<close> and \<open>color\<close>\<close>

text \<open>
  The operands of a \<open>Printf\<close> call: a string, an integer, or the dynamic value of an
  \<open>interface{}\<close> field.
\<close>

datatype arg = S string | I int | V "json option"

text \<open>
  What the model takes from the libraries as given: how \<open>github.com/fatih/color\<close> marks
  up a text with attributes (it returns the text itself when colour is off), how \<open>%v\<close>
  prints the \<open>float64\<close> made from a number literal, and \<open>strings.ToLower\<close> and
  \<open>strings.TrimSpace\<close>.
\<close>

datatype Attribute = Bold | FgRed | FgGreen | FgYellow | FgBlue | FgMagenta | FgCyan | FgWhite

record env =
  color_wrap :: "Attribute list \<Rightarrow> string \<Rightarrow> string"
  formatFloat :: "string \<Rightarrow> string"
  strings_ToLower :: "string \<Rightarrow> string"
  strings_TrimSpace :: "string \<Rightarrow> string"

text \<open>
  \<open>%v\<close> of the value of an \<open>interface{}\<close>: \<open>nil\<close>, a bool, a string, a float64, a
  slice \<open>[a b]\<close>, or a map \<open>map[k:v k:v]\<close> printed in the order of its keys (of a key
  that occurs twice the map holds the last value).
\<close>

fun insertKey :: "string \<Rightarrow> string list \<Rightarrow> string list" where
  "insertKey k [] = [k]"
| "insertKey k (x # xs) =
     (if k = x then x # xs
      else if lexordp (\<lambda>a b. byte a < byte b) k x then k # x # xs
      else x # insertKey k xs)"

definition sortedKeys :: "(string \<times> 'a) list \<Rightarrow> string list" where
  "sortedKeys kvs = foldr insertKey (map fst kvs) []"

fun joinSpace :: "string list \<Rightarrow> string" where
  "joinSpace [] = []"
| "joinSpace [x] = x"
| "joinSpace (x # y # ys) = x @ '' '' @ joinSpace (y # ys)"

fun printValue :: "(string \<Rightarrow> string) \<Rightarrow> json \<Rightarrow> string"
  and printValues :: "(string \<Rightarrow> string) \<Rightarrow> json list \<Rightarrow> string list"
  and printMembers :: "(string \<Rightarrow> string) \<Rightarrow> (string \<times> json) list \<Rightarrow> (string \<times> string) list" where
  "printValue ff JNull = ''<nil>''"
| "printValue ff (JBool b) = (if b then ''true'' else ''false'')"
| "printValue ff (JNumber s) = ff s"
| "printValue ff (JString s) = s"
| "printValue ff (JArray xs) = ''['' @ joinSpace (printValues ff xs) @ '']''"
| "printValue ff (JObject kvs) =
     ''map['' @ joinSpace (map (\<lambda>k. k @ '':'' @ the (map_of (rev (printMembers ff kvs)) k))
                              (sortedKeys kvs)) @ '']''"
| "printValues ff [] = []"
| "printValues ff (x # xs) = printValue ff x # printValues ff xs"
| "printMembers ff [] = []"
| "printMembers ff (kv # kvs) = (fst kv, printValue ff (snd kv)) # printMembers ff kvs"

definition fmt_v :: "(string \<Rightarrow> string) \<Rightarrow> json option \<Rightarrow> string" where
  "fmt_v ff x = (case x of None \<Rightarrow> ''<nil>'' | Some j \<Rightarrow> printValue ff j)"

text \<open>
  Padding to a width (\<open>fmt.padString\<close>): the width counts runes; the flag \<open>-\<close> pads on
  the right.
\<close>

definition padString :: "bool \<Rightarrow> nat option \<Rightarrow> string \<Rightarrow> string" where
  "padString left wid s =
     (case wid of
        None \<Rightarrow> s
      | Some w \<Rightarrow>
          if left then s @ replicate (w - RuneCountInString s) (CHR '' '')
          else replicate (w - RuneCountInString s) (CHR '' '') @ s)"

text \<open>
  One verb applied to one operand. The model covers the verbs \<open>%s\<close>, \<open>%d\<close> and
  \<open>%v\<close> with the flag \<open>-\<close> and a width; \<open>None\<close> stands for everything else
  (another verb, flag or operand type, a missing or a surplus operand), where Go prints a
  \<open>%!\<close> notice.
\<close>

definition formatVerb :: "(string \<Rightarrow> string) \<Rightarrow> char \<Rightarrow> bool \<Rightarrow> nat option \<Rightarrow> arg \<Rightarrow> string option" where
  "formatVerb ff verb left wid a =
     (if verb = CHR ''s'' then
        (case a of S s \<Rightarrow> Some (padString left wid s) | _ \<Rightarrow> None)
      else if verb = CHR ''d'' then
        (case a of I n \<Rightarrow> Some (padString left wid (showInt n)) | _ \<Rightarrow> None)
      else if verb = CHR ''v'' then
        (case a of
           S s \<Rightarrow> Some (padString left wid s)
         | I n \<Rightarrow> Some (padString left wid (showInt n))
         | V x \<Rightarrow> if wid = None then Some (fmt_v ff x) else None)
      else None)"

datatype fmtState = Text | Directive bool "nat option"

fun doPrintf :: "(string \<Rightarrow> string) \<Rightarrow> fmtState \<Rightarrow> string \<Rightarrow> arg list \<Rightarrow> string option" where
  "doPrintf ff Text [] [] = Some []"
| "doPrintf ff Text [] (a # as) = None"
| "doPrintf ff Text (c # cs) as =
     (if c = CHR ''%'' then doPrintf ff (Directive False None) cs as
      else map_option ((#) c) (doPrintf ff Text cs as))"
| "doPrintf ff (Directive left wid) [] as = None"
| "doPrintf ff (Directive left wid) (c # cs) as =
     (if c = CHR ''-'' \<and> \<not> left \<and> wid = None then doPrintf ff (Directive True None) cs as
      else if isDigit c \<and> (wid \<noteq> None \<or> c \<noteq> CHR ''0'') then
        (let w = 10 * (case wid of None \<Rightarrow> 0 | Some w0 \<Rightarrow> w0) + digitVal c
         in if w > 1000000 then None else doPrintf ff (Directive left (Some w)) cs as)
      else (case as of
              [] \<Rightarrow> None
            | a # as' \<Rightarrow>
                (case formatVerb ff c left wid a of
                   None \<Rightarrow> None
                 | Some out \<Rightarrow> map_option ((@) out) (doPrintf ff Text cs as'))))"

definition fmt_Sprintf :: "env \<Rightarrow> string \<Rightarrow> arg list \<Rightarrow> string option" where
  "fmt_Sprintf env format a = doPrintf (formatFloat env) Text format a"

definition fmt_Println :: "string list \<Rightarrow> string" where
  "fmt_Println a = joinSpace a @ ''\<newline>''"

text \<open>\<open>color.New(attrs...).Sprintf(format, a...)\<close>: the formatted text, marked up.\<close>

type_synonym Color = "Attribute list"

definition color_New :: "Attribute list \<Rightarrow> Color" where
  "color_New attrs = attrs"

definition color_Sprintf :: "env \<Rightarrow> Color \<Rightarrow> string \<Rightarrow> arg list \<Rightarrow> string option" where
  "color_Sprintf env c format a = map_option (color_wrap env c) (fmt_Sprintf env format a)"


text \<open>
  The markup of \<open>github.com/fatih/color\<close> when colour is on (the library decides this
  when the process starts: a terminal on standard output, and neither \<open>NO_COLOR\<close> nor
  a dumb terminal): \<open>c.format() + s + c.unformat()\<close>, the escape sequence of the
  attributes before the text and the sequence of their resets after it (as of version
  1.16 of the library, which resets bold with 22 and a colour with 0).
\<close>

definition attributeCode :: "Attribute \<Rightarrow> nat" where
  "attributeCode a =
     (case a of Bold \<Rightarrow> 1 | FgRed \<Rightarrow> 31 | FgGreen \<Rightarrow> 32 | FgYellow \<Rightarrow> 33 | FgBlue \<Rightarrow> 34
      | FgMagenta \<Rightarrow> 35 | FgCyan \<Rightarrow> 36 | FgWhite \<Rightarrow> 37)"

definition resetCode :: "Attribute \<Rightarrow> nat" where
  "resetCode a = (case a of Bold \<Rightarrow> 22 | _ \<Rightarrow> 0)"

fun strings_Join :: "string list \<Rightarrow> string \<Rightarrow> string" where
  "strings_Join [] sep = []"
| "strings_Join [x] sep = x"
| "strings_Join (x # y # ys) sep = x @ sep @ strings_Join (y # ys) sep"

definition color_format :: "Attribute list \<Rightarrow> string" where
  "color_format params =
     [CHR 0x1B] @ ''['' @ strings_Join (map (\<lambda>a. showNat (attributeCode a)) params) '';'' @ ''m''"

definition color_unformat :: "Attribute list \<Rightarrow> string" where
  "color_unformat params =
     [CHR 0x1B] @ ''['' @ strings_Join (map (\<lambda>a. showNat (resetCode a)) params) '';'' @ ''m''"

definition color_wrap_on :: "Attribute list \<Rightarrow> string \<Rightarrow> string" where
  "color_wrap_on params s = color_format params @ s @ color_unformat params"


section \<open>The program: \<open>main.go\<close>\<close>

text \<open>
  Integer division of Go on \<open>int64\<close>: the quotient is truncated towards zero.
\<close>

definition int64_div :: "64 word \<Rightarrow> 64 word \<Rightarrow> 64 word" where
  "int64_div a b = word_of_int (sint a sdiv sint b)"

definition getLevelColor :: "env \<Rightarrow> string \<Rightarrow> Color" where
  "getLevelColor env level =
     (let l = strings_ToLower env (strings_TrimSpace env level)
      in if l = ''error'' then color_New [FgRed, Bold]
         else if l = ''warn'' \<or> l = ''warning'' then color_New [FgYellow, Bold]
         else if l = ''info'' then color_New [FgBlue]
         else if l = ''debug'' then color_New [FgWhite]
         else color_New [FgWhite])"

definition getStatusColor :: "64 word \<Rightarrow> Color" where
  "getStatusColor status =
     (if 200 \<le> sint status \<and> sint status < 300 then color_New [FgGreen]
      else if 300 \<le> sint status \<and> sint status < 400 then color_New [FgYellow]
      else if 400 \<le> sint status \<and> sint status < 500 then color_New [FgRed]
      else if 500 \<le> sint status then color_New [FgRed, Bold]
      else color_New [FgWhite])"

text \<open>
  \<open>printPrettyLog\<close>. The result is the text written to standard output. \<open>now\<close> is
  what \<open>time.Now()\<close> returns when the timestamp does not parse.
\<close>

definition printPrettyLog :: "env \<Rightarrow> Time \<Rightarrow> LogEntry \<Rightarrow> string option" where
  "printPrettyLog env now log =
     (let timestamp = (case time_Parse_RFC3339 (Timestamp log) of Some t \<Rightarrow> t | None \<Rightarrow> now);
          timestampColor = color_New [FgCyan];
          levelColor = getLevelColor env (Level log);
          methodColor = color_New [FgMagenta, Bold];
          statusColor = getStatusColor (StatusCode (Response (HTTP log)));
          durationColor = color_New [FgYellow];
          pathColor = color_New [FgGreen];
          messageColor = color_New [FgWhite]
      in if Category log = ''http'' \<and> Method (Request (HTTP log)) \<noteq> [] then
           (let userAgent0 = UserAgent.Original (UserAgent log);
                userAgent = (if length userAgent0 > 50 then take 50 userAgent0 else userAgent0)
            in do {
              layout \<leftarrow> Time_Format timestamp ''15:04:05.000'';
              a1 \<leftarrow> color_Sprintf env timestampColor layout [];
              a2 \<leftarrow> color_Sprintf env levelColor ''%-4s''
                     [S (take (min 4 (length (Level log))) (Level log))];
              a3 \<leftarrow> color_Sprintf env methodColor ''%-4s'' [S (Method (Request (HTTP log)))];
              a4 \<leftarrow> color_Sprintf env statusColor ''%d''
                     [I (sint (StatusCode (Response (HTTP log))))];
              a5 \<leftarrow> color_Sprintf env pathColor ''%s'' [S (Path (URL log))];
              a6 \<leftarrow> color_Sprintf env durationColor ''%dms''
                     [I (sint (int64_div (Duration (Event log)) 1000000))];
              a7 \<leftarrow> color_Sprintf env (color_New [FgBlue]) ''ua=%s'' [S userAgent];
              a8 \<leftarrow> color_Sprintf env messageColor ''%s'' [S (Message log)];
              fmt_Sprintf env ''%s [%s] %s %s %s %s %s %s\<newline>''
                [S a1, S a2, S a3, S a4, S a5, S a6, S a7, S a8]
            })
         else do {
           layout \<leftarrow> Time_Format timestamp ''15:04:05.000'';
           a1 \<leftarrow> color_Sprintf env timestampColor layout [];
           a2 \<leftarrow> color_Sprintf env levelColor ''%-4s''
                  [S (take (min 4 (length (Level log))) (Level log))];
           a3 \<leftarrow> color_Sprintf env messageColor ''%s'' [S (Message log)];
           out1 \<leftarrow> fmt_Sprintf env ''%s [%s] %s'' [S a1, S a2, S a3];
           out2 \<leftarrow>
             (if Error log \<noteq> None then do {
                e \<leftarrow> color_Sprintf env (color_New [FgRed, Bold]) ''error=%v'' [V (Error log)];
                fmt_Sprintf env '' %s'' [S e]
              } else Some []);
           Some (out1 @ out2 @ fmt_Println [])
         })"

text \<open>
  The loop body of \<open>main\<close>: a line that does not decode is printed as it is, cut after
  120 bytes; a decoded line goes to \<open>printPrettyLog\<close>.
\<close>

definition processLine :: "env \<Rightarrow> Time \<Rightarrow> string \<Rightarrow> string option" where
  "processLine env now line =
     (case json_Unmarshal line of
        Inl err \<Rightarrow>
          if length line > 120 then fmt_Sprintf env ''%s...\<newline>'' [S (take 120 line)]
          else Some (fmt_Println [line])
      | Inr logEntry \<Rightarrow> printPrettyLog env now logEntry)"

text \<open>
  \<open>bufio.Scanner\<close> with the split function \<open>ScanLines\<close> and the default buffer: the
  tokens are the lines of the input without their end-of-line marker (\<open>\n\<close>, or
  \<open>\r\n\<close>); a last line without a newline counts when it is not empty. When 65536
  bytes have been read without a newline the buffer is full: \<open>Scan\<close> returns false
  and \<open>Err\<close> is \<open>ErrTooLong\<close>. The first argument holds the bytes of the current line
  read so far.
\<close>

definition MaxScanTokenSize :: nat where
  "MaxScanTokenSize = 64 * 1024"

definition dropCR :: "string \<Rightarrow> string" where
  "dropCR data = (if data \<noteq> [] \<and> last data = CHR 0x0D then butlast data else data)"

fun ScanLines :: "string \<Rightarrow> string \<Rightarrow> string list \<times> error option" where
  "ScanLines tok [] =
     (if tok = [] then ([], None)
      else if MaxScanTokenSize \<le> length tok then ([], Some ErrTooLong)
      else ([dropCR tok], None))"
| "ScanLines tok (c # cs) =
     (if MaxScanTokenSize \<le> length tok then ([], Some ErrTooLong)
      else if c = CHR 0x0A then (case ScanLines [] cs of (ls, e) \<Rightarrow> (dropCR tok # ls, e))
      else ScanLines (tok @ [c]) cs)"

text \<open>
  The loop \<open>for scanner.Scan()\<close>: the lines in order; \<open>clock i\<close> is the reading of
  \<open>time.Now()\<close> while line \<open>i\<close> is processed.
\<close>

fun processLines :: "env \<Rightarrow> (nat \<Rightarrow> Time) \<Rightarrow> nat \<Rightarrow> string list \<Rightarrow> string option" where
  "processLines env clock i [] = Some []"
| "processLines env clock i (line # ls) = do {
     out \<leftarrow> processLine env (clock i) line;
     rest \<leftarrow> processLines env clock (Suc i) ls;
     Some (out @ rest)
   }"

definition printHelp :: string where
  \<open>printHelp = concat (map (\<lambda>l. fmt_Println l)
     [[''LogPipe - Pretty-print structured JSON logs''],
      [],
      [''USAGE:''],
      [''  logpipe [OPTIONS]''],
      [],
      [''DESCRIPTION:''],
      [''  LogPipe reads JSON logs from stdin and displays them in a readable format.''],
      [''  It automatically detects HTTP access logs and general application logs.''],
      [],
      [''OPTIONS:''],
      [''  -h, --help     Show this help message''],
      [''  -v, --version  Show version information''],
      [],
      [''EXAMPLES:''],
      [''  # Kubernetes logs''],
      [''  kubectl logs my-pod | logpipe''],
      [],
      [''  # Local log files''],
      [''  cat app.log | logpipe''],
      [],
      [''  # Live log streaming''],
      [''  tail -f /var/log/app.log | logpipe''],
      [],
      [''  # JSON log example''],
      [''  echo '{"@timestamp":"2024-01-15T14:25:13.458Z","log.level":"info","message":"Server started"}' | logpipe''],
      [],
      [''OUTPUT FORMATS:''],
      [''  HTTP Access Logs:''],
      [''    14:25:13 [info ] GET  200 /api/users from=192.168.1.100 850ms ua=curl/8.7.1''],
      [],
      [''  Application Logs:''],
      [''    14:25:13 [error] Database connection failed error=map[code:TIMEOUT]''],
      [],
      [''For more information, visit: https://github.com/kabooboo/logpipe'']])\<close>

text \<open>
  The process as \<open>main\<close> sees it: the variables set at build time, the arguments, the
  result of \<open>os.Stdin.Stat()\<close> (whether standard input is a character device), the
  bytes of standard input and the clock.
\<close>

record world =
  version :: string
  commit :: string
  date :: string
  Args :: "string list"
  Stdin_Stat :: "error + bool"
  Stdin :: string
  Now :: "nat \<Rightarrow> Time"

record outcome =
  stdout :: string
  stderr :: string
  exitCode :: nat

definition printVersion :: "env \<Rightarrow> world \<Rightarrow> string option" where
  "printVersion env w = do {
     l1 \<leftarrow> fmt_Sprintf env ''LogPipe %s\<newline>'' [S (version w)];
     l2 \<leftarrow> fmt_Sprintf env ''Commit: %s\<newline>'' [S (commit w)];
     l3 \<leftarrow> fmt_Sprintf env ''Built: %s\<newline>'' [S (date w)];
     Some (l1 @ l2 @ l3 @ fmt_Println [''https://github.com/kabooboo/logpipe''])
   }"

definition Error_text :: "error \<Rightarrow> string" where
  "Error_text e =
     (case e of
        ErrTooLong \<Rightarrow> ''bufio.Scanner: token too long''
      | PathError msg \<Rightarrow> msg
      | SyntaxError \<Rightarrow> ''invalid character''
      | UnmarshalTypeError v \<Rightarrow> ''json: cannot unmarshal '' @ v)"

definition main :: "env \<Rightarrow> world \<Rightarrow> outcome option" where
  "main env w =
     (if length (Args w) > 1 \<and> Args w ! 1 \<in> {''-h'', ''--help'', ''help''} then
        Some \<lparr>stdout = printHelp, stderr = [], exitCode = 0\<rparr>
      else if length (Args w) > 1 \<and> Args w ! 1 \<in> {''-v'', ''--version'', ''version''} then
        map_option (\<lambda>out. \<lparr>stdout = out, stderr = [], exitCode = 0\<rparr>) (printVersion env w)
      else
        (case Stdin_Stat w of
           Inl err \<Rightarrow>
             map_option (\<lambda>msg. \<lparr>stdout = [], stderr = msg, exitCode = 1\<rparr>)
               (fmt_Sprintf env ''Error checking stdin: %v\<newline>'' [S (Error_text err)])
         | Inr charDevice \<Rightarrow>
             if charDevice \<and> length (Args w) = 1 then
               Some \<lparr>stdout = printHelp, stderr = [], exitCode = 0\<rparr>
             else
               (case ScanLines [] (Stdin w) of
                  (ls, readErr) \<Rightarrow> do {
                    out \<leftarrow> processLines env (Now w) 0 ls;
                    (case readErr of
                       None \<Rightarrow> Some \<lparr>stdout = out, stderr = [], exitCode = 0\<rparr>
                     | Some err \<Rightarrow>
                         map_option (\<lambda>msg. \<lparr>stdout = out, stderr = msg, exitCode = 1\<rparr>)
                           (fmt_Sprintf env ''Error reading from stdin: %v\<newline>''
                              [S (Error_text err)]))
                  })))"

section \<open>The older copy of \<open>main.go\<close>\<close>

text \<open>
  The repository holds a second, older text of \<open>main.go\<close> with its own
  \<open>printPrettyLog\<close> and \<open>getLevelColor\<close>.
\<close>

definition getLevelColor_old :: "string \<Rightarrow> Color" where
  "getLevelColor_old level =
     (if level = ''error'' then color_New [FgRed, Bold]
      else if level = ''warn'' then color_New [FgYellow, Bold]
      else if level = ''info'' then color_New [FgBlue]
      else if level = ''debug'' then color_New [FgWhite]
      else color_New [FgWhite])"

definition printPrettyLog_old :: "env \<Rightarrow> Time \<Rightarrow> LogEntry \<Rightarrow> string option" where
  "printPrettyLog_old env now log =
     (let timestamp = (case time_Parse_RFC3339 (Timestamp log) of Some t \<Rightarrow> t | None \<Rightarrow> now);
          timestampColor = color_New [FgCyan];
          levelColor = getLevelColor_old (Level log);
          methodColor = color_New [FgMagenta, Bold];
          statusColor = getStatusColor (StatusCode (Response (HTTP log)));
          durationColor = color_New [FgYellow];
          pathColor = color_New [FgGreen];
          messageColor = color_New [FgWhite]
      in if Category log = ''http'' \<and> Method (Request (HTTP log)) \<noteq> [] then do {
           layout \<leftarrow> Time_Format timestamp ''15:04:05'';
           a1 \<leftarrow> color_Sprintf env timestampColor layout [];
           a2 \<leftarrow> color_Sprintf env levelColor ''%-5s'' [S (Level log)];
           a3 \<leftarrow> color_Sprintf env methodColor ''%-4s'' [S (Method (Request (HTTP log)))];
           a4 \<leftarrow> color_Sprintf env statusColor ''%d''
                  [I (sint (StatusCode (Response (HTTP log))))];
           a5 \<leftarrow> color_Sprintf env pathColor ''%s'' [S (Path (URL log))];
           a6 \<leftarrow> color_Sprintf env (color_New [FgWhite]) ''from=%s'' [S (IP (Source log))];
           a7 \<leftarrow> color_Sprintf env durationColor ''%dms''
                  [I (sint (int64_div (Duration (Event log)) 1000))];
           a8 \<leftarrow> color_Sprintf env (color_New [FgBlue]) ''ua=%s''
                  [S (UserAgent.Original (UserAgent log))];
           fmt_Sprintf env ''%s [%s] %s %s %s %s %s %s\<newline>''
             [S a1, S a2, S a3, S a4, S a5, S a6, S a7, S a8]
         }
         else do {
           layout \<leftarrow> Time_Format timestamp ''15:04:05'';
           a1 \<leftarrow> color_Sprintf env timestampColor layout [];
           a2 \<leftarrow> color_Sprintf env levelColor ''%-5s'' [S (Level log)];
           a3 \<leftarrow> color_Sprintf env messageColor ''%s'' [S (Message log)];
           out1 \<leftarrow> fmt_Sprintf env ''%s [%s] %s'' [S a1, S a2, S a3];
           out2 \<leftarrow>
             (if Error log \<noteq> None then do {
                e \<leftarrow> color_Sprintf env (color_New [FgRed, Bold]) ''error=%v'' [V (Error log)];
                fmt_Sprintf env '' %s'' [S e]
              } else Some []);
           Some (out1 @ out2 @ fmt_Println [])
         })"


section \<open>The specification's notions\<close>

text \<open>
  The definitions of this section do not come from the code. They state what the
  specification describes, in its words, so that the code can be compared with it.
\<close>

text \<open>The display timestamp: the parsed timestamp, or the current time when it fails.\<close>

definition displayTime :: "Time \<Rightarrow> LogEntry \<Rightarrow> Time" where
  "displayTime now log =
     (case time_Parse_RFC3339 (Timestamp log) of Some t \<Rightarrow> t | None \<Rightarrow> now)"

text \<open>A time whose clock is a time of day.\<close>

definition validClock :: "Time \<Rightarrow> bool" where
  "validClock t \<longleftrightarrow> Hour t < 24 \<and> Minute t < 60 \<and> Second t < 60 \<and> Nanosecond t < 1000000000"

text \<open>\<open>HH:MM:SS.mmm\<close>: two digits each, and three digits for the milliseconds.\<close>

definition twoDigits :: "nat \<Rightarrow> string" where
  "twoDigits n = [digitChar (n div 10), digitChar (n mod 10)]"

definition threeDigits :: "nat \<Rightarrow> string" where
  "threeDigits n = [digitChar (n div 100), digitChar (n div 10 mod 10), digitChar (n mod 10)]"

definition clockText :: "nat \<Rightarrow> nat \<Rightarrow> nat \<Rightarrow> nat \<Rightarrow> string" where
  "clockText h m s ms = twoDigits h @ '':'' @ twoDigits m @ '':'' @ twoDigits s @ ''.'' @ threeDigits ms"

text \<open>
  The timestamps that are read as RFC 3339, described by their text, each with the time
  of day it shows: a year of four digits, a month and a day of two, the letter \<open>T\<close>, an
  hour of one or two digits, a minute and a second of two, then optionally a period or a
  comma with digits after it, then \<open>Z\<close> or a sign with two digits, a colon and two
  digits. The month, the day of the month, the hour, the minute and the second are in
  their ranges. What is shown is the hour on two digits, the minute, the second, and the
  first three digits of the fraction (zeros where it has fewer).
\<close>

definition digits :: "nat \<Rightarrow> string \<Rightarrow> bool" where
  "digits n s \<longleftrightarrow> length s = n \<and> list_all isDigit s"

definition fractionText :: "string \<Rightarrow> bool" where
  "fractionText f \<longleftrightarrow>
     f = [] \<or> (\<exists>sep ds. f = sep # ds \<and> (sep = CHR ''.'' \<or> sep = CHR '','')
                  \<and> ds \<noteq> [] \<and> list_all isDigit ds)"

definition zoneText :: "string \<Rightarrow> bool" where
  "zoneText z \<longleftrightarrow>
     z = ''Z'' \<or> (\<exists>sg hh mm. z = sg # hh @ '':'' @ mm \<and> (sg = CHR ''+'' \<or> sg = CHR ''-'')
                     \<and> digits 2 hh \<and> digits 2 mm)"

definition rfc3339_clock :: "string \<Rightarrow> string \<Rightarrow> bool" where
  "rfc3339_clock ts shown \<longleftrightarrow>
     (\<exists>year month day hour minute second fraction zone.
        ts = year @ ''-'' @ month @ ''-'' @ day @ ''T'' @ hour @ '':'' @ minute @ '':'' @ second
             @ fraction @ zone
        \<and> digits 4 year \<and> digits 2 month \<and> digits 2 day
        \<and> (digits 1 hour \<or> digits 2 hour) \<and> digits 2 minute \<and> digits 2 second
        \<and> fractionText fraction \<and> zoneText zone
        \<and> 1 \<le> decimal 0 month \<and> decimal 0 month \<le> 12
        \<and> 1 \<le> decimal 0 day \<and> decimal 0 day \<le> daysIn (decimal 0 month) (decimal 0 year)
        \<and> decimal 0 hour < 24 \<and> decimal 0 minute < 60 \<and> decimal 0 second < 60
        \<and> shown = (if length hour = 1 then ''0'' @ hour else hour) @ '':'' @ minute @ '':'' @ second
                   @ ''.'' @ take 3 (drop 1 fraction @ ''000''))"

text \<open>The level as displayed: its first four bytes, padded on the right to width 4.\<close>

definition level4 :: "string \<Rightarrow> string" where
  "level4 level = padString True (Some 4) (take 4 level)"

text \<open>The classification of a record.\<close>

definition isHTTPAccess :: "LogEntry \<Rightarrow> bool" where
  "isHTTPAccess log \<longleftrightarrow> Category log = ''http'' \<and> Method (Request (HTTP log)) \<noteq> []"

text \<open>The fields of a rendered line, each with its style.\<close>

definition timestamp_field :: "env \<Rightarrow> Time \<Rightarrow> LogEntry \<Rightarrow> string" where
  "timestamp_field env now log = color_wrap env [FgCyan] (Format_milli (displayTime now log))"

definition level_field :: "env \<Rightarrow> LogEntry \<Rightarrow> string" where
  "level_field env log = color_wrap env (getLevelColor env (Level log)) (level4 (Level log))"

definition method_field :: "env \<Rightarrow> LogEntry \<Rightarrow> string" where
  "method_field env log =
     color_wrap env [FgMagenta, Bold] (padString True (Some 4) (Method (Request (HTTP log))))"

definition status_field :: "env \<Rightarrow> LogEntry \<Rightarrow> string" where
  "status_field env log =
     color_wrap env (getStatusColor (StatusCode (Response (HTTP log))))
       (showInt (sint (StatusCode (Response (HTTP log)))))"

definition path_field :: "env \<Rightarrow> LogEntry \<Rightarrow> string" where
  "path_field env log = color_wrap env [FgGreen] (Path (URL log))"

definition duration_field :: "env \<Rightarrow> LogEntry \<Rightarrow> string" where
  "duration_field env log =
     color_wrap env [FgYellow] (showInt (sint (Duration (Event log)) sdiv 1000000) @ ''ms'')"

definition user_agent_field :: "env \<Rightarrow> LogEntry \<Rightarrow> string" where
  "user_agent_field env log =
     color_wrap env [FgBlue] (''ua='' @ take 50 (UserAgent.Original (UserAgent log)))"

definition message_field :: "env \<Rightarrow> LogEntry \<Rightarrow> string" where
  "message_field env log = color_wrap env [FgWhite] (Message log)"

definition error_suffix :: "env \<Rightarrow> LogEntry \<Rightarrow> string" where
  "error_suffix env log =
     (case Error log of
        None \<Rightarrow> []
      | Some x \<Rightarrow> '' '' @ color_wrap env [FgRed, Bold] (''error='' @ printValue (formatFloat env) x))"

text \<open>The two templates.\<close>

definition http_access_template :: "env \<Rightarrow> Time \<Rightarrow> LogEntry \<Rightarrow> string" where
  "http_access_template env now log =
     timestamp_field env now log @ '' ['' @ level_field env log @ ''] '' @ method_field env log
     @ '' '' @ status_field env log @ '' '' @ path_field env log @ '' '' @ duration_field env log
     @ '' '' @ user_agent_field env log @ '' '' @ message_field env log @ ''\<newline>''"

definition generic_template :: "env \<Rightarrow> Time \<Rightarrow> LogEntry \<Rightarrow> string" where
  "generic_template env now log =
     timestamp_field env now log @ '' ['' @ level_field env log @ ''] '' @ message_field env log
     @ error_suffix env log @ ''\<newline>''"

text \<open>
  The HTTP access line of the older copy: the time without milliseconds, the level padded
  to width 5, the source address, and no message.
\<close>

definition http_access_template_old :: "env \<Rightarrow> Time \<Rightarrow> LogEntry \<Rightarrow> int \<Rightarrow> string" where
  "http_access_template_old env now log ms =
     color_wrap env [FgCyan] (Format_sec (displayTime now log))
     @ '' ['' @ color_wrap env (getLevelColor_old (Level log)) (padString True (Some 5) (Level log))
     @ ''] '' @ method_field env log @ '' '' @ status_field env log @ '' '' @ path_field env log
     @ '' '' @ color_wrap env [FgWhite] (''from='' @ IP (Source log))
     @ '' '' @ color_wrap env [FgYellow] (showInt ms @ ''ms'')
     @ '' '' @ color_wrap env [FgBlue] (''ua='' @ UserAgent.Original (UserAgent log)) @ ''\<newline>''"

text \<open>
  When a JSON value fits a Go type. \<open>null\<close> fits every type; a string fits
  \<open>string\<close>; a number fits \<open>int\<close> and \<open>int64\<close> when it is written as an integer
  in the range of \<open>int64\<close>; an object fits a struct when every member whose key names
  a field holds a value that fits the type of this field (a member that names no field
  is ignored); every value fits \<open>interface{}\<close>, provided the numbers in it are in the
  range of \<open>float64\<close>. Nothing else fits.
\<close>

fun inFloatRange :: "json \<Rightarrow> bool"
  and allInFloatRange :: "json list \<Rightarrow> bool"
  and membersInFloatRange :: "(string \<times> json) list \<Rightarrow> bool" where
  "inFloatRange JNull = True"
| "inFloatRange (JBool b) = True"
| "inFloatRange (JString s) = True"
| "inFloatRange (JNumber s) = (\<not> floatRangeError s)"
| "inFloatRange (JArray xs) = allInFloatRange xs"
| "inFloatRange (JObject kvs) = membersInFloatRange kvs"
| "allInFloatRange [] = True"
| "allInFloatRange (x # xs) = (inFloatRange x \<and> allInFloatRange xs)"
| "membersInFloatRange [] = True"
| "membersInFloatRange (kv # kvs) = (inFloatRange (snd kv) \<and> membersInFloatRange kvs)"

fun fits :: "gotype \<Rightarrow> json \<Rightarrow> bool"
  and fitsMembers :: "(string \<times> gotype) list \<Rightarrow> (string \<times> json) list \<Rightarrow> bool" where
  "fits t JNull = True"
| "fits t (JBool b) = (t = InterfaceT)"
| "fits t (JString s) = (t = StringT \<or> t = InterfaceT)"
| "fits t (JNumber s) =
     (case t of
        InterfaceT \<Rightarrow> inFloatRange (JNumber s)
      | IntT \<Rightarrow> ParseInt s \<noteq> None
      | Int64T \<Rightarrow> ParseInt s \<noteq> None
      | _ \<Rightarrow> False)"
| "fits t (JArray xs) = (t = InterfaceT \<and> inFloatRange (JArray xs))"
| "fits t (JObject kvs) =
     (case t of
        InterfaceT \<Rightarrow> inFloatRange (JObject kvs)
      | StructT fs \<Rightarrow> fitsMembers fs kvs
      | _ \<Rightarrow> False)"
| "fitsMembers fs [] = True"
| "fitsMembers fs (kv # kvs) =
     ((case findField fs (fst kv) of
         None \<Rightarrow> True
       | Some name \<Rightarrow> (case map_of fs name of None \<Rightarrow> True | Some t \<Rightarrow> fits t (snd kv)))
      \<and> fitsMembers fs kvs)"

text \<open>
  The lines of an input stream: the pieces between the newlines, and the piece after the
  last newline when it is not empty. \<open>rawLines\<close> keeps a carriage return at the end
  of a line, \<open>inputLines\<close> drops it.
\<close>

fun splitLines :: "string \<Rightarrow> string \<Rightarrow> string list" where
  "splitLines cur [] = (if cur = [] then [] else [cur])"
| "splitLines cur (c # cs) =
     (if c = CHR 0x0A then cur # splitLines [] cs else splitLines (cur @ [c]) cs)"

definition rawLines :: "string \<Rightarrow> string list" where
  "rawLines data = splitLines [] data"

definition inputLines :: "string \<Rightarrow> string list" where
  "inputLines data = map dropCR (rawLines data)"

text \<open>
  What the specification lets the program write for one line: the fallback for a line
  that does not decode, and the template of its class for a record.
\<close>

definition renderLine :: "env \<Rightarrow> Time \<Rightarrow> string \<Rightarrow> string" where
  "renderLine env now line =
     (case json_Unmarshal line of
        Inl err \<Rightarrow> (if length line > 120 then take 120 line @ ''...'' else line) @ ''\<newline>''
      | Inr log \<Rightarrow>
          if isHTTPAccess log then http_access_template env now log
          else generic_template env now log)"

text \<open>
  The program processes its input (rather than printing the help or the version) when the
  first argument is none of the flags, \<open>Stat\<close> succeeds and standard input is piped
  or an argument is given.
\<close>

definition streamMode :: "world \<Rightarrow> bool" where
  "streamMode w \<longleftrightarrow>
     \<not> (length (Args w) > 1 \<and>
         Args w ! 1 \<in> {''-h'', ''--help'', ''help'', ''-v'', ''--version'', ''version''})
     \<and> (Stdin_Stat w = Inr False \<or> (Stdin_Stat w = Inr True \<and> length (Args w) \<noteq> 1))"

text \<open>
  The fields a line shows hold no newline, and the colour markup adds none.
\<close>

definition plainFields :: "env \<Rightarrow> LogEntry \<Rightarrow> bool" where
  "plainFields env log \<longleftrightarrow>
     (\<forall>a s. count_list (color_wrap env a s) (CHR 0x0A) = count_list s (CHR 0x0A))
     \<and> CHR 0x0A \<notin> set (Level log) \<and> CHR 0x0A \<notin> set (Message log)
     \<and> (if isHTTPAccess log then
           CHR 0x0A \<notin> set (Method (Request (HTTP log))) \<and> CHR 0x0A \<notin> set (Path (URL log))
           \<and> CHR 0x0A \<notin> set (UserAgent.Original (UserAgent log))
         else (case Error log of
                 None \<Rightarrow> True
               | Some x \<Rightarrow> CHR 0x0A \<notin> set (printValue (formatFloat env) x)))"

definition oneLiner :: "env \<Rightarrow> string \<Rightarrow> bool" where
  "oneLiner env line \<longleftrightarrow>
     (case json_Unmarshal line of Inl err \<Rightarrow> True | Inr log \<Rightarrow> plainFields env log)"

section \<open>Examples\<close>

text \<open>
  The zero value of \<open>LogEntry\<close> (what \<open>var logEntry LogEntry\<close> declares), and the
  records of three log lines in the style of the README.
\<close>

definition LogEntry_zero :: LogEntry where
  "LogEntry_zero =
     \<lparr>Timestamp = [], Level = [], Message = [], Category = [], Error = None,
      Destination = \<lparr>Destination.Domain = []\<rparr>,
      Event = \<lparr>Duration = 0\<rparr>,
      HTTP =
        \<lparr>Request = \<lparr>Request.Body = \<lparr>Bytes = 0\<rparr>, Request.ID = [], Method = [], Time = []\<rparr>,
         Response = \<lparr>Response.Body = \<lparr>Bytes = 0\<rparr>, MimeType = [], StatusCode = 0\<rparr>,
         HTTP.Version = []\<rparr>,
      Log =
        \<lparr>Logger = [], Log.Original = [],
         Origin = \<lparr>File = \<lparr>Line = 0, File.Name = []\<rparr>, Function = []\<rparr>\<rparr>,
      Process =
        \<lparr>Process.Name = [], PID = 0, Thread = \<lparr>Thread.ID = 0, Thread.Name = []\<rparr>\<rparr>,
      Service = \<lparr>Service.Version = []\<rparr>,
      Source = \<lparr>IP = []\<rparr>,
      Span = None,
      Trace = None,
      URL =
        \<lparr>URL.Domain = [], Path = [], PathTemplate = [], Port = 0, Query = [], Scheme = []\<rparr>,
      UserAgent = \<lparr>UserAgent.Original = []\<rparr>,
      LogEntry.Version = []\<rparr>"

definition example_http :: LogEntry where
  "example_http = LogEntry_zero
     \<lparr>Timestamp := ''2025-06-28T11:50:07.000Z'',
      Level := ''info'',
      Message := ''access logs'',
      Category := ''http'',
      Event := \<lparr>Duration = 1250000000\<rparr>,
      HTTP :=
        \<lparr>Request = \<lparr>Request.Body = \<lparr>Bytes = 0\<rparr>, Request.ID = [], Method = ''POST'', Time = []\<rparr>,
         Response = \<lparr>Response.Body = \<lparr>Bytes = 0\<rparr>, MimeType = [], StatusCode = 200\<rparr>,
         HTTP.Version = []\<rparr>,
      URL :=
        \<lparr>URL.Domain = [], Path = ''/api/users'', PathTemplate = [], Port = 0, Query = [],
         Scheme = []\<rparr>,
      UserAgent := \<lparr>UserAgent.Original = ''curl/8.7.1''\<rparr>\<rparr>"

definition example_http_line :: string where
  \<open>example_http_line =
     ''{"@timestamp":"2025-06-28T11:50:07.000Z","log.level":"info","message":"access logs",''
     @ ''"category":"http","http":{"request":{"method":"POST"},"response":{"status_code":200}},''
     @ ''"url":{"path":"/api/users"},"event":{"duration":1250000000},''
     @ ''"user_agent":{"original":"curl/8.7.1"}}''\<close>

definition example_error :: LogEntry where
  "example_error = LogEntry_zero
     \<lparr>Timestamp := ''2025-06-28T11:50:00.000Z'',
      Level := ''error'',
      Message := ''DB failed'',
      Error := Some (JObject [(''code'', JString ''TIMEOUT'')])\<rparr>"

definition example_error_line :: string where
  \<open>example_error_line =
     ''{"@timestamp":"2025-06-28T11:50:00.000Z","log.level":"error","message":"DB failed",''
     @ ''"error":{"code":"TIMEOUT"}}''\<close>

definition example_text :: LogEntry where
  "example_text = LogEntry_zero
     \<lparr>Level := ''warn'', Message := ''Rate limit approaching'', Error := Some (JString ''slow down'')\<rparr>"

text \<open>A clock reading, and the libraries with colour switched off.\<close>

definition example_now :: Time where
  "example_now =
     \<lparr>Year = 2026, Month = 11, Day = 3, Hour = 7, Minute = 8, Second = 9,
      Nanosecond = 12345678, Offset = 0\<rparr>"

definition asciiLower :: "string \<Rightarrow> string" where
  "asciiLower s = map (\<lambda>c. if 65 \<le> byte c \<and> byte c \<le> 90 then char_of (byte c + 32) else c) s"

definition asciiSpace :: "char \<Rightarrow> bool" where
  "asciiSpace c \<longleftrightarrow> byte c = 32 \<or> (9 \<le> byte c \<and> byte c \<le> 13)"

definition asciiTrim :: "string \<Rightarrow> string" where
  "asciiTrim s = rev (dropWhile asciiSpace (rev (dropWhile asciiSpace s)))"

definition noColor :: "(string \<Rightarrow> string) \<Rightarrow> (string \<Rightarrow> string) \<Rightarrow> (string \<Rightarrow> string) \<Rightarrow> env" where
  "noColor ff lower trim =
     \<lparr>color_wrap = (\<lambda>attrs s. s), formatFloat = ff, strings_ToLower = lower,
      strings_TrimSpace = trim\<rparr>"


text \<open>
  A run without colour, for examples in ASCII: lower case and trimming of ASCII, and
  numbers printed as they are written (which is how \<open>%v\<close> prints a number that is
  written in its shortest decimal form).
\<close>

definition plainEnv :: env where
  "plainEnv = noColor (\<lambda>s. s) asciiLower asciiTrim"

text \<open>A process that reads the given input from a pipe, and a line of 65536 bytes.\<close>

definition example_world :: "string \<Rightarrow> world" where
  "example_world input =
     \<lparr>version = ''dev'', commit = ''unknown'', date = ''unknown'', Args = [''logpipe''],
      Stdin_Stat = Inr False, Stdin = input, Now = (\<lambda>i. example_now)\<rparr>"

definition longLine :: string where
  "longLine = replicate 65536 (CHR ''a'')"

text \<open>
  A record whose timestamp has a fraction and a numeric offset, one whose offset lacks the
  colon, a character of two bytes (U+00E9), and a run with colour switched on.
\<close>

definition example_offset :: LogEntry where
  "example_offset = LogEntry_zero
     \<lparr>Timestamp := ''2025-06-28T09:05:07.123456+02:00'', Level := ''debug'', Message := ''tick''\<rparr>"

definition example_bad_zone :: LogEntry where
  "example_bad_zone = LogEntry_zero
     \<lparr>Timestamp := ''2025-06-28T09:05:07.123+0200'', Level := ''debug'', Message := ''tick''\<rparr>"

definition eacute :: string where
  "eacute = [CHR 0xC3, CHR 0xA9]"

definition ansiEnv :: env where
  "ansiEnv = plainEnv\<lparr>color_wrap := color_wrap_on\<rparr>"

section \<open>Auxiliary facts\<close>

lemmas fmt_eval = fmt_Sprintf_def formatVerb_def isDigit_def digitVal_def byte_def

lemma doPrintf_plain: "CHR ''%'' \<notin> set s \<Longrightarrow> doPrintf ff Text s [] = Some s"
  by (induction s) auto

lemma digitChar_in: "d < 10 \<Longrightarrow> digitChar d \<in> set ''0123456789''"
  unfolding digitChar_def by (rule nth_mem) simp

lemma digitChar_no_percent: "d < 10 \<Longrightarrow> digitChar d \<noteq> CHR ''%''"
  using digitChar_in [of d] by auto

lemma showNat_no_percent: "CHR ''%'' \<notin> set (showNat n)"
proof (induction n rule: showNat.induct)
  case (1 n)
  show ?case
  proof (cases "n < 10")
    case True
    then show ?thesis using digitChar_no_percent [of n] by (subst showNat.simps) auto
  next
    case False
    have "digitChar (n mod 10) \<noteq> CHR ''%''" by (rule digitChar_no_percent) simp
    with False 1 show ?thesis by (subst showNat.simps) auto
  qed
qed

lemma appendInt_no_percent: "CHR ''%'' \<notin> set (appendInt x w)"
  using showNat_no_percent [of x] by (simp add: appendInt_def)

lemma Format_sec_no_percent: "CHR ''%'' \<notin> set (Format_sec t)"
  by (simp add: Format_sec_def appendInt_no_percent)

lemma Format_milli_no_percent: "CHR ''%'' \<notin> set (Format_milli t)"
proof -
  have "CHR ''%'' \<notin> set (take 3 (appendInt (Nanosecond t) 9))"
    using appendInt_no_percent [of "Nanosecond t" 9] by (blast dest: in_set_takeD)
  then show ?thesis by (simp add: Format_milli_def Format_sec_no_percent)
qed

lemma Sprintf_Format_milli: "fmt_Sprintf env (Format_milli t) [] = Some (Format_milli t)"
  unfolding fmt_Sprintf_def by (rule doPrintf_plain) (rule Format_milli_no_percent)

lemma Sprintf_Format_sec: "fmt_Sprintf env (Format_sec t) [] = Some (Format_sec t)"
  unfolding fmt_Sprintf_def by (rule doPrintf_plain) (rule Format_sec_no_percent)



lemma Sprintf_s: "fmt_Sprintf env ''%s'' [S x] = Some x"
  by (simp add: fmt_eval padString_def)

lemma Sprintf_pad4: "fmt_Sprintf env ''%-4s'' [S x] = Some (padString True (Some 4) x)"
  by (simp add: fmt_eval)

lemma Sprintf_pad5: "fmt_Sprintf env ''%-5s'' [S x] = Some (padString True (Some 5) x)"
  by (simp add: fmt_eval)

lemma Sprintf_d: "fmt_Sprintf env ''%d'' [I n] = Some (showInt n)"
  by (simp add: fmt_eval padString_def)

lemma Sprintf_dms: "fmt_Sprintf env ''%dms'' [I n] = Some (showInt n @ ''ms'')"
  by (simp add: fmt_eval padString_def)

lemma Sprintf_ua: "fmt_Sprintf env ''ua=%s'' [S x] = Some (''ua='' @ x)"
  by (simp add: fmt_eval padString_def)

lemma Sprintf_from: "fmt_Sprintf env ''from=%s'' [S x] = Some (''from='' @ x)"
  by (simp add: fmt_eval padString_def)

lemma Sprintf_error: "fmt_Sprintf env ''error=%v'' [V x] = Some (''error='' @ fmt_v (formatFloat env) x)"
  by (simp add: fmt_eval padString_def)

lemma Sprintf_sp: "fmt_Sprintf env '' %s'' [S x] = Some ('' '' @ x)"
  by (simp add: fmt_eval padString_def)

lemma Sprintf_line3: "fmt_Sprintf env ''%s [%s] %s'' [S a1, S a2, S a3] = Some (a1 @ '' ['' @ a2 @ ''] '' @ a3)"
  by (simp add: fmt_eval padString_def)

lemma Sprintf_line8:
  "fmt_Sprintf env ''%s [%s] %s %s %s %s %s %s\<newline>'' [S a1, S a2, S a3, S a4, S a5, S a6, S a7, S a8]
   = Some (a1 @ '' ['' @ a2 @ ''] '' @ a3 @ '' '' @ a4 @ '' '' @ a5 @ '' '' @ a6 @ '' '' @ a7 @ '' '' @ a8 @ ''\<newline>'')"
  by (simp add: fmt_eval padString_def)

lemma Sprintf_cut: "fmt_Sprintf env ''%s...\<newline>'' [S x] = Some (x @ ''...\<newline>'')"
  by (simp add: fmt_eval padString_def)

lemma showNat_small: "n < 10 \<Longrightarrow> showNat n = [digitChar n]"
  by (subst showNat.simps) simp

lemma showNat_step: "10 \<le> n \<Longrightarrow> showNat n = showNat (n div 10) @ [digitChar (n mod 10)]"
  by (subst showNat.simps) simp

lemma digitChar_0: "digitChar 0 = CHR ''0''"
  by (simp add: digitChar_def)

lemma showNat_length_pos: "0 < length (showNat n)"
  by (subst showNat.simps) simp

lemma appendInt_step:
  assumes "1 \<le> k"
  shows "appendInt n (Suc k) = appendInt (n div 10) k @ [digitChar (n mod 10)]"
proof (cases "n < 10")
  case True
  then have "appendInt n (Suc k) = replicate k (CHR ''0'') @ [digitChar n]"
    by (simp add: appendInt_def showNat_small)
  moreover have "appendInt (n div 10) k = replicate (k - 1) (CHR ''0'') @ [CHR ''0'']"
    using True by (simp add: appendInt_def showNat_small digitChar_0)
  moreover have "replicate (k - 1) (CHR ''0'') @ [CHR ''0''] = replicate k (CHR ''0'')"
    using assms by (cases k) (simp_all add: replicate_append_same)
  ultimately show ?thesis using True by simp
next
  case False
  then have s: "showNat n = showNat (n div 10) @ [digitChar (n mod 10)]"
    by (simp add: showNat_step)
  show ?thesis by (simp add: appendInt_def s)
qed

lemma appendInt_1: "n < 10 \<Longrightarrow> appendInt n (Suc 0) = [digitChar n]"
  by (simp add: appendInt_def showNat_small)

lemma appendInt_2: "n < 100 \<Longrightarrow> appendInt n 2 = twoDigits n"
proof -
  assume "n < 100"
  then have "n div 10 < 10" by simp
  then show ?thesis
    using appendInt_step [of 1 n] by (simp add: appendInt_1 twoDigits_def numeral_2_eq_2)
qed

lemma appendInt_3: "n < 1000 \<Longrightarrow> appendInt n 3 = threeDigits n"
proof -
  assume a: "n < 1000"
  then have "n div 10 < 100" by simp
  then have "appendInt (n div 10) 2 = twoDigits (n div 10)" by (rule appendInt_2)
  moreover have "appendInt n (Suc 2) = appendInt (n div 10) 2 @ [digitChar (n mod 10)]"
    by (rule appendInt_step) simp
  moreover have "n div 10 div 10 = n div 100" by (simp add: div_mult2_eq)
  ultimately show ?thesis by (simp add: threeDigits_def twoDigits_def numeral_3_eq_3)
qed

lemma appendInt_9:
  assumes "n < 1000000000"
  shows "take 3 (appendInt n 9) = threeDigits (n div 1000000)"
proof -
  have e: "\<And>m k. 1 \<le> k \<Longrightarrow> \<exists>c. appendInt m (Suc k) = appendInt (m div 10) k @ [c]"
    using appendInt_step by blast
  obtain c1 where s1: "appendInt n 9 = appendInt (n div 10) 8 @ [c1]"
    using e [of 8 n] by auto
  obtain c2 where s2: "appendInt (n div 10) 8 = appendInt (n div 100) 7 @ [c2]"
    using e [of 7 "n div 10"] by (auto simp flip: div_mult2_eq)
  obtain c3 where s3: "appendInt (n div 100) 7 = appendInt (n div 1000) 6 @ [c3]"
    using e [of 6 "n div 100"] by (auto simp flip: div_mult2_eq)
  obtain c4 where s4: "appendInt (n div 1000) 6 = appendInt (n div 10000) 5 @ [c4]"
    using e [of 5 "n div 1000"] by (auto simp flip: div_mult2_eq)
  obtain c5 where s5: "appendInt (n div 10000) 5 = appendInt (n div 100000) 4 @ [c5]"
    using e [of 4 "n div 10000"] by (auto simp flip: div_mult2_eq)
  obtain c6 where s6: "appendInt (n div 100000) 4 = appendInt (n div 1000000) 3 @ [c6]"
    using e [of 3 "n div 100000"] by (auto simp flip: div_mult2_eq)
  have "n div 1000000 < 1000" using assms by simp
  then have t: "appendInt (n div 1000000) 3 = threeDigits (n div 1000000)" by (rule appendInt_3)
  have "appendInt n 9 = threeDigits (n div 1000000) @ [c6, c5, c4, c3, c2, c1]"
    by (simp add: s1 s2 s3 s4 s5 s6 t)
  then show ?thesis by (simp add: threeDigits_def)
qed

lemma Format_milli_clockText:
  "validClock t \<Longrightarrow>
   Format_milli t = clockText (Hour t) (Minute t) (Second t) (Nanosecond t div 1000000)"
  by (simp add: Format_milli_def Format_sec_def clockText_def validClock_def appendInt_2 appendInt_9)

lemma decimal_bound:
  "list_all isDigit ds \<Longrightarrow> decimal acc ds + 1 \<le> (acc + 1) * 10 ^ length ds"
proof (induction ds arbitrary: acc)
  case Nil
  then show ?case by simp
next
  case (Cons c ds)
  then have d: "digitVal c \<le> 9" by (auto simp: isDigit_def digitVal_def)
  have "decimal (acc * 10 + digitVal c) ds + 1 \<le> (acc * 10 + digitVal c + 1) * 10 ^ length ds"
    using Cons by simp
  also have "\<dots> \<le> ((acc + 1) * 10) * 10 ^ length ds"
    using d by (intro mult_right_mono) auto
  finally show ?case by (simp add: algebra_simps)
qed

lemma parseNanoseconds_bound:
  assumes "list_all isDigit ds"
  shows "parseNanoseconds ds < 1000000000"
proof -
  let ?d = "take 9 ds"
  have a: "list_all isDigit ?d" using assms by (auto simp: list_all_iff dest: in_set_takeD)
  have l: "length ?d \<le> 9" by simp
  have "decimal 0 ?d + 1 \<le> 10 ^ length ?d" using decimal_bound [OF a, of 0] by simp
  then have "decimal 0 ?d < 10 ^ length ?d" by simp
  then have "decimal 0 ?d * 10 ^ (9 - length ?d) < 10 ^ length ?d * 10 ^ (9 - length ?d)"
    by (intro mult_strict_right_mono) auto
  also have "\<dots> = (10::nat) ^ 9" using l by (simp flip: power_add)
  finally show ?thesis by (simp add: parseNanoseconds_def)
qed

lemma parseFraction_bound: "fst (parseFraction v) < 1000000000"
proof -
  have "list_all isDigit (takeWhile isDigit (tl v))"
    by (auto simp: list_all_iff dest: set_takeWhileD)
  then show ?thesis by (simp add: parseFraction_def parseNanoseconds_bound)
qed

lemma pred_bindI:
  "(\<And>z. x = Some z \<Longrightarrow> pred_option P (f z)) \<Longrightarrow> pred_option P (Option.bind x f)"
  by (cases x) auto

lemma pred_checkI:
  "(b \<Longrightarrow> pred_option P (f ())) \<Longrightarrow> pred_option P (Option.bind (check b) f)"
  by (cases b) (auto simp: check_def)

lemma time_Parse_pred: "pred_option validClock (time_Parse_RFC3339 s)"
  unfolding time_Parse_RFC3339_def
  apply (rule pred_bindI, simp only: split_paired_all prod.case)
  apply (rule pred_bindI)
  apply (rule pred_bindI, simp only: split_paired_all prod.case)
  apply (rule pred_checkI)
  apply (rule pred_bindI)
  apply (rule pred_bindI, simp only: split_paired_all prod.case)
  apply (rule pred_bindI)
  apply (rule pred_bindI, simp only: split_paired_all prod.case)
  apply (rule pred_checkI)
  apply (rule pred_bindI)
  apply (rule pred_bindI, simp only: split_paired_all prod.case)
  apply (rule pred_checkI)
  apply (rule pred_bindI)
  apply (rule pred_bindI, simp only: split_paired_all prod.case)
  apply (rule pred_checkI)
  apply (rule pred_bindI, simp only: split_paired_all prod.case)
  apply (rule pred_bindI, simp only: split_paired_all prod.case)
  apply (rule pred_checkI)
  apply (rule pred_checkI)
  apply (simp add: validClock_def)
  apply (metis parseFraction_bound fst_conv)
  done

lemma time_Parse_valid: "time_Parse_RFC3339 s = Some t \<Longrightarrow> validClock t"
  using time_Parse_pred [of s] by simp

lemma time_Parse_empty: "time_Parse_RFC3339 [] = None"
  by (simp add: time_Parse_RFC3339_def parseYear_def)


lemma abs_sdiv: "0 < k \<Longrightarrow> \<bar>a sdiv k\<bar> = \<bar>a\<bar> div k" for a k :: int
  by (cases "a = 0") (auto simp: signed_divide_int_def abs_mult sgn_if pos_imp_zdiv_nonneg_iff)

lemma sdiv_nonpos: "0 < k \<Longrightarrow> a \<le> 0 \<Longrightarrow> a sdiv k \<le> 0" for a k :: int
  by (auto simp: signed_divide_int_def sgn_if pos_imp_zdiv_nonneg_iff)

lemma sint_sdiv_in_range:
  assumes "0 < k"
  shows "sint (word_of_int (sint (d :: 64 word) sdiv k) :: 64 word) = sint d sdiv k"
proof -
  have lo: "- (2 ^ 63) \<le> sint d" using sint_ge [of d] by simp
  have hi: "sint d < 2 ^ 63" using sint_lt [of d] by simp
  have a: "\<bar>sint d sdiv k\<bar> = \<bar>sint d\<bar> div k" using assms by (rule abs_sdiv)
  have b: "\<bar>sint d\<bar> div k \<le> \<bar>sint d\<bar>"
    using zdiv_mono2 [of "\<bar>sint d\<bar>" 1 k] assms by simp
  have "- (2 ^ 63) \<le> sint d sdiv k" "sint d sdiv k \<le> 2 ^ 63"
    using lo hi a b by auto
  moreover have "sint d sdiv k \<noteq> 2 ^ 63"
  proof
    assume e: "sint d sdiv k = 2 ^ 63"
    then have "2 ^ 63 \<le> \<bar>sint d\<bar>" using a b by simp
    then have "sint d \<le> 0" using lo hi by auto
    then have "sint d sdiv k \<le> 0" using assms by (simp add: sdiv_nonpos)
    with e show False by simp
  qed
  ultimately have "- (2 ^ 63) \<le> sint d sdiv k" "sint d sdiv k < 2 ^ 63" by auto
  then show ?thesis by (simp add: sint_sbintrunc' signed_take_bit_int_eq_self)
qed

lemma sint_int64_div: "sint (int64_div d 1000000) = sint d sdiv 1000000"
  unfolding int64_div_def using sint_sdiv_in_range [of 1000000 d] by simp

lemma sint_int64_div_1000: "sint (int64_div d 1000) = sint d sdiv 1000"
  unfolding int64_div_def using sint_sdiv_in_range [of 1000 d] by simp

lemma take_min_length: "take (min n (length xs)) xs = take n xs"
  by (simp add: min_def)

lemmas printPretty_simps =
  Let_def Time_Format_def color_Sprintf_def color_New_def level4_def
  Sprintf_Format_milli Sprintf_Format_sec Sprintf_s Sprintf_pad4 Sprintf_pad5 Sprintf_d
  Sprintf_dms Sprintf_ua Sprintf_from Sprintf_error Sprintf_sp Sprintf_line3 Sprintf_line8
  sint_int64_div sint_int64_div_1000 take_min_length fmt_Println_def fmt_v_def
  timestamp_field_def level_field_def method_field_def status_field_def path_field_def
  duration_field_def user_agent_field_def message_field_def error_suffix_def displayTime_def

lemma printPrettyLog_http:
  "isHTTPAccess log \<Longrightarrow> printPrettyLog env now log = Some (http_access_template env now log)"
  by (simp add: printPrettyLog_def http_access_template_def printPretty_simps
        flip: isHTTPAccess_def)

lemma printPrettyLog_generic:
  "\<not> isHTTPAccess log \<Longrightarrow> printPrettyLog env now log = Some (generic_template env now log)"
  by (cases "Error log")
     (simp_all add: printPrettyLog_def generic_template_def printPretty_simps
        flip: isHTTPAccess_def)

lemma printPrettyLog_old_http:
  "isHTTPAccess log \<Longrightarrow>
   printPrettyLog_old env now log =
     Some (http_access_template_old env now log (sint (Duration (Event log)) sdiv 1000))"
  by (simp add: printPrettyLog_old_def http_access_template_old_def printPretty_simps
        flip: isHTTPAccess_def)

lemma example_http_decoded: "json_Unmarshal example_http_line = Inr example_http"
  by code_simp

lemma example_error_decoded: "json_Unmarshal example_error_line = Inr example_error"
  by code_simp

lemma example_http_isHTTPAccess: "isHTTPAccess example_http"
  by code_simp

lemma example_error_generic: "\<not> isHTTPAccess example_error"
  by code_simp

lemma example_text_generic: "\<not> isHTTPAccess example_text"
  by code_simp

lemma firstError_None: "firstError a b = None \<longleftrightarrow> a = None \<and> b = None"
  by (cases a) (simp_all add: firstError_def)

lemma interfaceError_iff:
  "interfaceError j = None \<longleftrightarrow> inFloatRange j"
  "interfaceErrors xs = None \<longleftrightarrow> allInFloatRange xs"
  "memberErrors kvs = None \<longleftrightarrow> membersInFloatRange kvs"
  by (induction j and xs and kvs rule: interfaceError_interfaceErrors_memberErrors.induct)
     (simp_all add: firstError_None)

lemma store_error_iff:
  "snd (store t j v) = None \<longleftrightarrow> fits t j"
  "snd (object fs kvs vs) = None \<longleftrightarrow> fitsMembers fs kvs"
proof (induction t j v and fs kvs vs rule: store_object.induct)
  case (1 t v)
  then show ?case by (simp split: gotype.splits)
next
  case (2 t b v)
  then show ?case by (simp split: gotype.splits)
next
  case (3 t s v)
  then show ?case by (simp split: gotype.splits)
next
  case (4 t s v)
  then show ?case by (simp split: gotype.splits option.splits)
next
  case (5 t xs v)
  then show ?case by (simp add: interfaceError_iff split: gotype.splits)
next
  case (6 t kvs v)
  then show ?case by (auto simp: interfaceError_iff split: gotype.splits prod.splits)
next
  case (7 fs vs)
  then show ?case by simp
next
  case (8 fs kv kvs vs)
  show ?case
  proof (cases "findField fs (fst kv)")
    case None
    with 8(1) show ?thesis by simp
  next
    case f: (Some name)
    show ?thesis
    proof (cases "map_of fs name")
      case None
      with f 8(2) show ?thesis by simp
    next
      case m: (Some t)
      obtain v' e where st: "store t (snd kv) (getField vs name) = (v', e)"
        by (cases "store t (snd kv) (getField vs name)")
      obtain vs' e' where ob: "object fs kvs (setField vs name v') = (vs', e')"
        by (cases "object fs kvs (setField vs name v')")
      have a: "(e = None) = fits t (snd kv)"
        using 8(3) [OF f m] st by simp
      have b: "(e' = None) = fitsMembers fs kvs"
        using 8(4) [OF f m st [symmetric]] ob by simp
      show ?thesis
        using a b by (simp add: f m st ob firstError_None)
    qed
  qed
qed

lemma processLine_renderLine: "processLine env now line = Some (renderLine env now line)"
  by (cases "json_Unmarshal line")
     (simp_all add: processLine_def renderLine_def Sprintf_cut fmt_Println_def
        printPrettyLog_http printPrettyLog_generic)

lemma processLines_eq:
  "processLines env clock i ls =
     Some (concat (map (\<lambda>(k, l). renderLine env (clock k) l) (enumerate i ls)))"
  by (induction ls arbitrary: i) (simp_all add: processLine_renderLine)

lemma splitLines_first:
  "tok \<noteq> [] \<or> data \<noteq> [] \<Longrightarrow> \<exists>l ls. splitLines tok data = l # ls \<and> length tok \<le> length l"
proof (induction data arbitrary: tok)
  case Nil
  then show ?case by simp
next
  case (Cons c cs)
  show ?case
  proof (cases "c = CHR 0x0A")
    case True
    then show ?thesis by simp
  next
    case False
    have "\<exists>l ls. splitLines (tok @ [c]) cs = l # ls \<and> length (tok @ [c]) \<le> length l"
      by (rule Cons.IH) simp
    then show ?thesis using False by auto
  qed
qed

lemma ScanLines_eq:
  "\<forall>l \<in> set (splitLines tok data). length l < MaxScanTokenSize \<Longrightarrow>
   ScanLines tok data = (map dropCR (splitLines tok data), None)"
proof (induction data arbitrary: tok)
  case Nil
  then show ?case by (auto simp: not_le split: if_splits)
next
  case (Cons c cs)
  obtain l ls where f: "splitLines tok (c # cs) = l # ls" "length tok \<le> length l"
    using splitLines_first [of tok "c # cs"] by auto
  then have "length l < MaxScanTokenSize" using Cons.prems by simp
  then have short: "\<not> MaxScanTokenSize \<le> length tok" using f(2) by simp
  show ?case
  proof (cases "c = CHR 0x0A")
    case True
    then have "\<forall>l \<in> set (splitLines [] cs). length l < MaxScanTokenSize"
      using Cons.prems by simp
    then have "ScanLines [] cs = (map dropCR (splitLines [] cs), None)"
      by (rule Cons.IH)
    then show ?thesis using True short by simp
  next
    case False
    then have "\<forall>l \<in> set (splitLines (tok @ [c]) cs). length l < MaxScanTokenSize"
      using Cons.prems by simp
    then have "ScanLines (tok @ [c]) cs = (map dropCR (splitLines (tok @ [c]) cs), None)"
      by (rule Cons.IH)
    then show ?thesis using False short by simp
  qed
qed

lemma splitLines_no_newline:
  "l \<in> set (splitLines tok data) \<Longrightarrow> CHR 0x0A \<notin> set tok \<Longrightarrow> CHR 0x0A \<notin> set l"
proof (induction data arbitrary: tok)
  case Nil
  then show ?case by (auto split: if_splits)
next
  case (Cons c cs)
  show ?case
  proof (cases "c = CHR 0x0A")
    case True
    then have "l = tok \<or> l \<in> set (splitLines [] cs)" using Cons.prems(1) by simp
    then show ?thesis
    proof
      assume "l = tok"
      then show ?thesis using Cons.prems(2) by simp
    next
      assume "l \<in> set (splitLines [] cs)"
      then show ?thesis by (rule Cons.IH) simp
    qed
  next
    case False
    then have "l \<in> set (splitLines (tok @ [c]) cs)" using Cons.prems(1) by simp
    then show ?thesis
      by (rule Cons.IH) (use False Cons.prems(2) in auto)
  qed
qed

lemma set_dropCR: "set (dropCR l) \<subseteq> set l"
  by (auto simp: dropCR_def dest: in_set_butlastD)

lemma length_dropCR: "length (dropCR l) \<le> length l"
  by (simp add: dropCR_def)

lemma inputLines_no_newline: "l \<in> set (inputLines data) \<Longrightarrow> CHR 0x0A \<notin> set l"
  using splitLines_no_newline [of _ "[]" data] set_dropCR
  by (fastforce simp: inputLines_def rawLines_def)


lemma main_stream:
  assumes "streamMode w"
    and "\<forall>l \<in> set (rawLines (Stdin w)). length l < MaxScanTokenSize"
  shows "main env w =
     Some \<lparr>stdout = concat (map (\<lambda>(k, l). renderLine env (Now w k) l)
                                (enumerate 0 (inputLines (Stdin w)))),
           stderr = [], exitCode = 0\<rparr>"
proof -
  have sc: "ScanLines [] (Stdin w) = (inputLines (Stdin w), None)"
    using ScanLines_eq [of "[]" "Stdin w"] assms(2) by (simp add: inputLines_def rawLines_def)
  have fl: "\<not> (length (Args w) > 1 \<and> Args w ! 1 \<in> {''-h'', ''--help'', ''help''})"
    "\<not> (length (Args w) > 1 \<and> Args w ! 1 \<in> {''-v'', ''--version'', ''version''})"
    using assms(1) by (auto simp: streamMode_def)
  from assms(1) consider "Stdin_Stat w = Inr False"
    | "Stdin_Stat w = Inr True" "length (Args w) \<noteq> 1"
    by (auto simp: streamMode_def)
  then show ?thesis
  proof cases
    case 1
    then show ?thesis
      unfolding main_def using fl by (auto simp: sc processLines_eq)
  next
    case 2
    then show ?thesis
      unfolding main_def using fl by (auto simp: sc processLines_eq)
  qed
qed

lemma renderLine_end:
  "renderLine env now line \<noteq> [] \<and> last (renderLine env now line) = CHR 0x0A"
  by (cases "json_Unmarshal line")
     (simp_all add: renderLine_def http_access_template_def generic_template_def)

lemma renderLine_unparsed:
  "json_Unmarshal line = Inl err \<Longrightarrow> CHR 0x0A \<notin> set line \<Longrightarrow>
   count_list (renderLine env now line) (CHR 0x0A) = 1"
  by (auto simp: renderLine_def count_list_0_iff dest: in_set_takeD)

lemma digitChar_not_newline: "d < 10 \<Longrightarrow> digitChar d \<noteq> CHR 0x0A"
  using digitChar_in [of d] by auto

lemma showNat_no_newline: "CHR 0x0A \<notin> set (showNat n)"
proof (induction n rule: showNat.induct)
  case (1 n)
  show ?case
  proof (cases "n < 10")
    case True
    then show ?thesis using digitChar_not_newline [of n] by (subst showNat.simps) auto
  next
    case False
    have "digitChar (n mod 10) \<noteq> CHR 0x0A" by (rule digitChar_not_newline) simp
    with False 1 show ?thesis by (subst showNat.simps) auto
  qed
qed

lemma count_showNat: "count_list (showNat n) (CHR 0x0A) = 0"
  using showNat_no_newline by (simp add: count_list_0_iff)

lemma count_showInt: "count_list (showInt i) (CHR 0x0A) = 0"
  by (simp add: showInt_def count_showNat)

lemma count_replicate_other: "c \<noteq> d \<Longrightarrow> count_list (replicate n c) d = 0"
  by (simp add: count_list_0_iff)

lemma count_appendInt: "count_list (appendInt x w) (CHR 0x0A) = 0"
  by (simp add: appendInt_def count_showNat count_replicate_other)

lemma count_take_0: "count_list xs c = 0 \<Longrightarrow> count_list (take n xs) c = 0"
  by (auto simp: count_list_0_iff dest: in_set_takeD)

lemma count_Format_milli: "count_list (Format_milli t) (CHR 0x0A) = 0"
  by (simp add: Format_milli_def Format_sec_def count_appendInt count_take_0)

lemma count_padString:
  "count_list s (CHR 0x0A) = 0 \<Longrightarrow> count_list (padString left wid s) (CHR 0x0A) = 0"
  by (cases wid) (simp_all add: padString_def count_replicate_other)

lemma renderLine_decoded:
  assumes "json_Unmarshal line = Inr log" and "plainFields env log"
  shows "count_list (renderLine env now line) (CHR 0x0A) = 1"
proof -
  have w: "\<And>a s. count_list (color_wrap env a s) (CHR 0x0A) = count_list s (CHR 0x0A)"
    using assms(2) by (simp add: plainFields_def)
  have lv: "count_list (level4 (Level log)) (CHR 0x0A) = 0"
    using assms(2) by (simp add: level4_def plainFields_def count_padString count_take_0 count_list_0_iff)
  have ms: "count_list (Message log) (CHR 0x0A) = 0"
    using assms(2) by (simp add: plainFields_def count_list_0_iff)
  show ?thesis
  proof (cases "isHTTPAccess log")
    case True
    then have "count_list (Method (Request (HTTP log))) (CHR 0x0A) = 0"
      "count_list (Path (URL log)) (CHR 0x0A) = 0"
      "count_list (UserAgent.Original (UserAgent log)) (CHR 0x0A) = 0"
      using assms(2) by (simp_all add: plainFields_def count_list_0_iff)
    then show ?thesis
      using True assms(1) lv ms
      by (simp add: renderLine_def http_access_template_def w timestamp_field_def
          level_field_def method_field_def status_field_def path_field_def duration_field_def
          user_agent_field_def message_field_def count_Format_milli count_padString
          count_showInt count_take_0)
  next
    case False
    then have "count_list (error_suffix env log) (CHR 0x0A) = 0"
      using assms(2) by (cases "Error log") (simp_all add: error_suffix_def plainFields_def w count_list_0_iff)
    then show ?thesis
      using False assms(1) lv ms
      by (simp add: renderLine_def generic_template_def w timestamp_field_def
          level_field_def message_field_def count_Format_milli)
  qed
qed

lemma renderLine_oneLiner:
  "oneLiner env line \<Longrightarrow> CHR 0x0A \<notin> set line \<Longrightarrow>
   count_list (renderLine env now line) (CHR 0x0A) = 1"
  by (cases "json_Unmarshal line")
     (simp_all add: oneLiner_def renderLine_unparsed renderLine_decoded)

lemma splitLines_replicate:
  "c \<noteq> CHR 0x0A \<Longrightarrow> splitLines tok (replicate n c @ rest) = splitLines (tok @ replicate n c) rest"
  by (induction n arbitrary: tok) (simp_all add: replicate_app_Cons_same)

lemma ScanLines_too_long:
  "c \<noteq> CHR 0x0A \<Longrightarrow> length tok \<le> MaxScanTokenSize \<Longrightarrow> MaxScanTokenSize \<le> length tok + n \<Longrightarrow>
   ScanLines tok (replicate n c @ rest) = ([], Some ErrTooLong)"
proof (induction n arbitrary: tok)
  case 0
  then have "MaxScanTokenSize \<le> length tok" by simp
  moreover have "tok \<noteq> []" using calculation by (auto simp: MaxScanTokenSize_def)
  ultimately show ?case by (cases rest) simp_all
next
  case (Suc n)
  show ?case
  proof (cases "MaxScanTokenSize \<le> length tok")
    case True
    then show ?thesis by simp
  next
    case False
    then have "ScanLines (tok @ [c]) (replicate n c @ rest) = ([], Some ErrTooLong)"
      using Suc.prems by (intro Suc.IH) simp_all
    then show ?thesis using False Suc.prems(1) by simp
  qed
qed

lemma rawLines_longLine:
  "rawLines (longLine @ ''\<newline>{}\<newline>'') = [longLine, ''{}'']"
  unfolding rawLines_def longLine_def
  by (subst splitLines_replicate) simp_all

lemma ScanLines_longLine:
  "ScanLines [] (longLine @ rest) = ([], Some ErrTooLong)"
  unfolding longLine_def
  by (rule ScanLines_too_long) (simp_all add: MaxScanTokenSize_def)

lemma main_longLine:
  "main plainEnv (example_world (longLine @ ''\<newline>{}\<newline>'')) =
     Some \<lparr>stdout = [], stderr = ''Error reading from stdin: bufio.Scanner: token too long\<newline>'',
           exitCode = 1\<rparr>"
  by (simp add: main_def example_world_def ScanLines_longLine Error_text_def fmt_eval padString_def)

text \<open>The timestamp parser, step by step, and the text it accepts.\<close>

lemma digits_1: "digits 1 s \<longleftrightarrow> (\<exists>a. s = [a] \<and> isDigit a)"
  by (cases s) (auto simp: digits_def)

lemma digits_2: "digits 2 s \<longleftrightarrow> (\<exists>a b. s = [a, b] \<and> isDigit a \<and> isDigit b)"
proof (cases s)
  case Nil
  then show ?thesis by (simp add: digits_def)
next
  case (Cons a s')
  then show ?thesis by (cases s') (auto simp: digits_def)
qed

lemma digitChar_digitVal: "isDigit c \<Longrightarrow> digitChar (digitVal c) = c"
proof -
  assume d: "isDigit c"
  define n where "n = byte c - 48"
  have n: "n < 10" and b: "byte c = n + 48"
    using d by (auto simp: isDigit_def n_def)
  have "n \<in> {0, 1, 2, 3, 4, 5, 6, 7, 8, 9}" using n by auto
  then have "byte (digitChar n) = n + 48"
    by (auto simp: digitChar_def byte_def)
  then have "(of_char (digitChar n) :: nat) = of_char c"
    using b by (simp add: byte_def)
  then have "digitChar n = c" by (simp only: of_char_eq_iff)
  then show ?thesis by (simp add: digitVal_def n_def [symmetric])
qed

lemma digitVal_less: "isDigit c \<Longrightarrow> digitVal c < 10"
  by (auto simp: isDigit_def digitVal_def)

lemma twoDigits_text:
  "isDigit a \<Longrightarrow> isDigit b \<Longrightarrow> twoDigits (digitVal a * 10 + digitVal b) = [a, b]"
  using digitVal_less [of a] digitVal_less [of b]
  by (simp add: twoDigits_def digitChar_digitVal)

lemma twoDigits_text1: "isDigit a \<Longrightarrow> twoDigits (digitVal a) = [CHR ''0'', a]"
  using digitVal_less [of a]
  by (simp add: twoDigits_def digitChar_digitVal digitChar_0)


lemma digits_4: "digits 4 s \<longleftrightarrow> (\<exists>a b c d. s = [a, b, c, d] \<and> isDigit a \<and> isDigit b \<and> isDigit c \<and> isDigit d)"
proof
  assume "digits 4 s"
  then have l: "length s = 4" and d: "list_all isDigit s" by (simp_all add: digits_def)
  from l obtain a b c d where "s = [a, b, c, d]"
    by (auto simp: length_Suc_conv numeral_eq_Suc)
  with d show "\<exists>a b c d. s = [a, b, c, d] \<and> isDigit a \<and> isDigit b \<and> isDigit c \<and> isDigit d"
    by simp
next
  assume "\<exists>a b c d. s = [a, b, c, d] \<and> isDigit a \<and> isDigit b \<and> isDigit c \<and> isDigit d"
  then show "digits 4 s" by (auto simp: digits_def)
qed

lemma skip_Some: "skip v c = Some r \<longleftrightarrow> v = c # r"
  by (cases v) (auto simp: skip_def)

lemma parseYear_Some:
  "parseYear v = Some (n, r) \<longleftrightarrow> (\<exists>y. v = y @ r \<and> digits 4 y \<and> n = decimal 0 y)"
proof
  assume "parseYear v = Some (n, r)"
  then have "length v \<ge> 4" "list_all isDigit (take 4 v)" "n = decimal 0 (take 4 v)" "r = drop 4 v"
    by (auto simp: parseYear_def split: if_splits)
  then have "v = take 4 v @ r \<and> digits 4 (take 4 v) \<and> n = decimal 0 (take 4 v)"
    by (simp add: digits_def)
  then show "\<exists>y. v = y @ r \<and> digits 4 y \<and> n = decimal 0 y" by blast
next
  assume "\<exists>y. v = y @ r \<and> digits 4 y \<and> n = decimal 0 y"
  then show "parseYear v = Some (n, r)"
    by (auto simp: parseYear_def digits_def)
qed

lemma getnum_fixed_Some:
  "getnum v True = Some (n, r) \<longleftrightarrow>
     (\<exists>a b. v = a # b # r \<and> isDigit a \<and> isDigit b \<and> n = digitVal a * 10 + digitVal b)"
proof (cases v)
  case Nil
  then show ?thesis by (simp add: getnum_def isDigitAt_def)
next
  case (Cons a v')
  then show ?thesis
    by (cases v') (auto simp: getnum_def isDigitAt_def)
qed

lemma getnum_free_Some:
  "getnum v False = Some (n, r) \<longleftrightarrow>
     (\<exists>a b. v = a # b # r \<and> isDigit a \<and> isDigit b \<and> n = digitVal a * 10 + digitVal b)
     \<or> (\<exists>a. v = a # r \<and> isDigit a \<and> (r = [] \<or> \<not> isDigit (hd r)) \<and> n = digitVal a)"
proof (cases v)
  case Nil
  then show ?thesis by (simp add: getnum_def isDigitAt_def)
next
  case (Cons a v')
  then show ?thesis
    by (cases v') (auto simp: getnum_def isDigitAt_def)
qed

lemma takeWhile_digits:
  "list_all isDigit ds \<Longrightarrow> z = [] \<or> \<not> isDigit (hd z) \<Longrightarrow>
   takeWhile isDigit (ds @ z) = ds \<and> dropWhile isDigit (ds @ z) = z"
proof (induction ds)
  case Nil
  then show ?case by (cases z) auto
next
  case (Cons a ds)
  then show ?case by simp
qed

lemma parseFraction_cases:
  "parseFraction v = (n, r) \<longleftrightarrow>
     (n = 0 \<and> r = v \<and> \<not> (\<exists>sep d v'. v = sep # d # v' \<and> commaOrPeriod sep \<and> isDigit d))
     \<or> (\<exists>sep ds. v = sep # ds @ r \<and> commaOrPeriod sep \<and> ds \<noteq> [] \<and> list_all isDigit ds
            \<and> (r = [] \<or> \<not> isDigit (hd r)) \<and> n = parseNanoseconds ds)"
proof (cases "\<exists>sep d v'. v = sep # d # v' \<and> commaOrPeriod sep \<and> isDigit d")
  case True
  then obtain sep d v' where v: "v = sep # d # v'" and c: "commaOrPeriod sep" and d: "isDigit d"
    by blast
  define ds where "ds = takeWhile isDigit (d # v')"
  define z where "z = dropWhile isDigit (d # v')"
  have p: "parseFraction v = (parseNanoseconds ds, z)"
    using v c d by (simp add: parseFraction_def isDigitAt_def ds_def z_def)
  have split: "d # v' = ds @ z" by (simp add: ds_def z_def)
  have ds: "ds \<noteq> []" "list_all isDigit ds"
    using d by (auto simp: ds_def list_all_iff dest: set_takeWhileD)
  have z: "z = [] \<or> \<not> isDigit (hd z)"
    unfolding z_def by (metis hd_dropWhile)
  show ?thesis
  proof
    assume "parseFraction v = (n, r)"
    then have "n = parseNanoseconds ds" "r = z" using p by simp_all
    then show "(n = 0 \<and> r = v \<and> \<not> (\<exists>sep d v'. v = sep # d # v' \<and> commaOrPeriod sep \<and> isDigit d))
     \<or> (\<exists>sep ds. v = sep # ds @ r \<and> commaOrPeriod sep \<and> ds \<noteq> [] \<and> list_all isDigit ds
            \<and> (r = [] \<or> \<not> isDigit (hd r)) \<and> n = parseNanoseconds ds)"
      using v c ds z split by auto
  next
    assume "(n = 0 \<and> r = v \<and> \<not> (\<exists>sep d v'. v = sep # d # v' \<and> commaOrPeriod sep \<and> isDigit d))
     \<or> (\<exists>sep ds. v = sep # ds @ r \<and> commaOrPeriod sep \<and> ds \<noteq> [] \<and> list_all isDigit ds
            \<and> (r = [] \<or> \<not> isDigit (hd r)) \<and> n = parseNanoseconds ds)"
    with True obtain sep' ds' where v': "v = sep' # ds' @ r" and ds': "list_all isDigit ds'"
        and r: "r = [] \<or> \<not> isDigit (hd r)" and n: "n = parseNanoseconds ds'"
      by blast
    from v v' have "d # v' = ds' @ r" by simp
    then have "ds = ds'" "z = r"
      using takeWhile_digits [OF ds' r] by (simp_all add: ds_def z_def)
    then show "parseFraction v = (n, r)" using p n by simp
  qed
next
  case False
  then have p: "parseFraction v = (0, v)"
    by (cases v; cases "tl v") (auto simp: parseFraction_def isDigitAt_def)
  have no: "\<not> (\<exists>sep ds. v = sep # ds @ r \<and> commaOrPeriod sep \<and> ds \<noteq> [] \<and> list_all isDigit ds
            \<and> (r = [] \<or> \<not> isDigit (hd r)) \<and> n = parseNanoseconds ds)"
  proof
    assume "\<exists>sep ds. v = sep # ds @ r \<and> commaOrPeriod sep \<and> ds \<noteq> [] \<and> list_all isDigit ds
            \<and> (r = [] \<or> \<not> isDigit (hd r)) \<and> n = parseNanoseconds ds"
    then obtain sep ds where "v = sep # ds @ r" "commaOrPeriod sep" "ds \<noteq> []" "list_all isDigit ds"
      by blast
    then have "\<exists>sep d v'. v = sep # d # v' \<and> commaOrPeriod sep \<and> isDigit d"
      by (cases ds) auto
    with False show False by blast
  qed
  show ?thesis using p no False by auto
qed

lemma parseZone_Some:
  "parseZone v = Some (off, r) \<longleftrightarrow>
     (v = CHR ''Z'' # r \<and> off = 0)
     \<or> (\<exists>sg a b c d. v = sg # a # b # CHR '':'' # c # d # r
           \<and> (sg = CHR ''+'' \<or> sg = CHR ''-'')
           \<and> isDigit a \<and> isDigit b \<and> isDigit c \<and> isDigit d
           \<and> off = (if sg = CHR ''-'' then - 1 else 1)
                   * int (((digitVal a * 10 + digitVal b) * 60 + (digitVal c * 10 + digitVal d)) * 60))"
proof (cases "v \<noteq> [] \<and> hd v = CHR ''Z''")
  case True
  then show ?thesis by (cases v) (auto simp: parseZone_def)
next
  case False
  show ?thesis
  proof (cases "length v < 6")
    case True
    then show ?thesis using False by (auto simp: parseZone_def)
  next
    case long: False
    then obtain sg a b k c d r' where v: "v = sg # a # b # k # c # d # r'"
      by (cases v; cases "tl v"; cases "tl (tl v)"; cases "tl (tl (tl v))";
          cases "tl (tl (tl (tl v)))"; cases "tl (tl (tl (tl (tl v))))") auto
    have sg: "sg \<noteq> CHR ''Z''" using False v by simp
    show ?thesis
      using sg unfolding v
      by (auto simp: parseZone_def getnum_def isDigitAt_def check_def)
  qed
qed

lemma decimal_acc: "decimal acc ds = acc * 10 ^ length ds + decimal 0 ds"
proof (induction ds arbitrary: acc)
  case Nil
  then show ?case by simp
next
  case (Cons c ds)
  have "decimal acc (c # ds) = decimal (acc * 10 + digitVal c) ds" by simp
  also have "\<dots> = (acc * 10 + digitVal c) * 10 ^ length ds + decimal 0 ds"
    by (rule Cons)
  also have "decimal 0 (c # ds) = digitVal c * 10 ^ length ds + decimal 0 ds"
    using Cons [of "digitVal c"] by simp
  ultimately show ?case by (simp add: algebra_simps)
qed

lemma decimal_less: "list_all isDigit ds \<Longrightarrow> decimal 0 ds < 10 ^ length ds"
  using decimal_bound [of ds 0] by simp

lemma threeDigits_text:
  assumes "isDigit a" "isDigit b" "isDigit c"
  shows "threeDigits ((digitVal a * 10 + digitVal b) * 10 + digitVal c) = [a, b, c]"
proof -
  define x y z where "x = digitVal a" and "y = digitVal b" and "z = digitVal c"
  have b: "x < 10" "y < 10" "z < 10"
    using assms by (simp_all add: x_def y_def z_def digitVal_less)
  have yz: "y * 10 + z < 100" using b by simp
  have "((x * 10 + y) * 10 + z) div 100 = (y * 10 + z + x * 100) div 100"
    by (simp add: algebra_simps)
  also have "\<dots> = x + (y * 10 + z) div 100" by (rule div_mult_self1) simp
  finally have h: "((x * 10 + y) * 10 + z) div 100 = x" using yz by simp
  have "((x * 10 + y) * 10 + z) div 10 = (z + (x * 10 + y) * 10) div 10"
    by (simp add: algebra_simps)
  also have "\<dots> = (x * 10 + y) + z div 10" by (rule div_mult_self1) simp
  finally have t: "((x * 10 + y) * 10 + z) div 10 = x * 10 + y" using b by simp
  have "(x * 10 + y) mod 10 = (y + x * 10) mod 10" by (simp add: algebra_simps)
  also have "\<dots> = y mod 10" by (rule mod_mult_self1)
  finally have m: "((x * 10 + y) * 10 + z) div 10 mod 10 = y" using b t by simp
  have "((x * 10 + y) * 10 + z) mod 10 = (z + (x * 10 + y) * 10) mod 10"
    by (simp add: algebra_simps)
  also have "\<dots> = z mod 10" by (rule mod_mult_self1)
  finally have u: "((x * 10 + y) * 10 + z) mod 10 = z" using b by simp
  have "digitChar x = a" "digitChar y = b" "digitChar z = c"
    using assms by (simp_all add: x_def y_def z_def digitChar_digitVal)
  then have "threeDigits ((x * 10 + y) * 10 + z) = [a, b, c]"
    unfolding threeDigits_def h m u by simp
  then show ?thesis by (simp only: x_def y_def z_def)
qed

lemma millis_text:
  assumes "ds \<noteq> []" and d: "list_all isDigit ds"
  shows "threeDigits (parseNanoseconds ds div 1000000) = take 3 (ds @ ''000'')"
proof -
  have z: "isDigit (CHR ''0'')" "digitVal (CHR ''0'') = 0"
    by (simp_all add: isDigit_def digitVal_def byte_def)
  consider a where "ds = [a]" | a b where "ds = [a, b]" | a b c rest where "ds = a # b # c # rest"
    using assms(1) by (cases ds; cases "tl ds"; cases "tl (tl ds)") auto
  then show ?thesis
  proof cases
    case 1
    then have "parseNanoseconds ds div 1000000 = (digitVal a * 10 + 0) * 10 + 0"
      by (simp add: parseNanoseconds_def)
    then show ?thesis
      using threeDigits_text [of a "CHR ''0''" "CHR ''0''"] d 1 z by simp
  next
    case 2
    then have "parseNanoseconds ds div 1000000 = (digitVal a * 10 + digitVal b) * 10 + 0"
      by (simp add: parseNanoseconds_def)
    then show ?thesis
      using threeDigits_text [of a b "CHR ''0''"] d 2 z by simp
  next
    case 3
    define r where "r = take 6 rest"
    define n3 where "n3 = (digitVal a * 10 + digitVal b) * 10 + digitVal c"
    have r: "list_all isDigit r" "length r \<le> 6"
      using d 3 by (auto simp: r_def list_all_iff dest: in_set_takeD)
    have t: "take 9 ds = a # b # c # r" by (simp add: 3 r_def)
    have "decimal 0 (take 9 ds) = decimal n3 r"
      by (simp add: t n3_def)
    also have "\<dots> = n3 * 10 ^ length r + decimal 0 r" by (rule decimal_acc)
    finally have dec: "decimal 0 (take 9 ds) = n3 * 10 ^ length r + decimal 0 r" .
    have p: "(10::nat) ^ length r * 10 ^ (6 - length r) = 1000000"
      using r(2) by (simp flip: power_add)
    have "parseNanoseconds ds = (n3 * 10 ^ length r + decimal 0 r) * 10 ^ (6 - length r)"
      unfolding parseNanoseconds_def dec by (simp add: t)
    also have "\<dots> = n3 * (10 ^ length r * 10 ^ (6 - length r)) + decimal 0 r * 10 ^ (6 - length r)"
      by (simp add: algebra_simps)
    finally have pn: "parseNanoseconds ds = n3 * 1000000 + decimal 0 r * 10 ^ (6 - length r)"
      by (simp only: p)
    have "decimal 0 r * 10 ^ (6 - length r) < 10 ^ length r * 10 ^ (6 - length r)"
      using decimal_less [OF r(1)] by (intro mult_strict_right_mono) auto
    then have lt: "decimal 0 r * 10 ^ (6 - length r) < 1000000" by (simp only: p)
    have "parseNanoseconds ds div 1000000 = n3"
      unfolding pn using lt by simp
    then show ?thesis
      using threeDigits_text [of a b c] d 3 by (simp add: n3_def)
  qed
qed

lemma decimal_2: "decimal 0 [a, b] = digitVal a * 10 + digitVal b"
  by simp

lemma decimal_1: "decimal 0 [a] = digitVal a"
  by simp

lemma not_digit_punct:
  "\<not> isDigit (CHR '':'')" "\<not> isDigit (CHR ''Z'')" "\<not> isDigit (CHR ''+'')" "\<not> isDigit (CHR ''-'')"
  "\<not> isDigit (CHR ''.'')" "\<not> isDigit (CHR '','')"
  by (simp_all add: isDigit_def byte_def)

lemma zoneText_parse:
  assumes "zoneText z"
  shows "\<exists>off. parseZone z = Some (off, []) \<and> z \<noteq> [] \<and> \<not> isDigit (hd z) \<and> \<not> commaOrPeriod (hd z)"
proof -
  from assms consider "z = ''Z''"
    | sg hh mm where "z = sg # hh @ '':'' @ mm" "sg = CHR ''+'' \<or> sg = CHR ''-''" "digits 2 hh" "digits 2 mm"
    unfolding zoneText_def by blast
  then show ?thesis
  proof cases
    case 1
    then show ?thesis
      using parseZone_Some [of z 0 "[]"] by (simp add: not_digit_punct commaOrPeriod_def)
  next
    case 2
    from 2(3,4) obtain a b c d where hm: "hh = [a, b]" "mm = [c, d]"
        and dg: "isDigit a" "isDigit b" "isDigit c" "isDigit d"
      by (auto simp: digits_2)
    let ?off = "(if sg = CHR ''-'' then - 1 else 1)
        * int (((digitVal a * 10 + digitVal b) * 60 + (digitVal c * 10 + digitVal d)) * 60)"
    have z: "z = sg # a # b # CHR '':'' # c # d # []" using 2(1) hm by simp
    have "parseZone z = Some (?off, [])"
      unfolding parseZone_Some using z 2(2) dg by blast
    moreover have "\<not> isDigit (hd z)" "\<not> commaOrPeriod (hd z)"
      using z 2(2) by (auto simp: not_digit_punct commaOrPeriod_def)
    ultimately show ?thesis using z by blast
  qed
qed

lemma fractionText_parse:
  assumes "fractionText f" and z: "z \<noteq> []" "\<not> isDigit (hd z)" "\<not> commaOrPeriod (hd z)"
  shows "\<exists>n. parseFraction (f @ z) = (n, z) \<and> n < 1000000000
           \<and> threeDigits (n div 1000000) = take 3 (drop 1 f @ ''000'')"
proof -
  from assms(1) consider "f = []"
    | sep ds where "f = sep # ds" "sep = CHR ''.'' \<or> sep = CHR '',''" "ds \<noteq> []" "list_all isDigit ds"
    unfolding fractionText_def by blast
  then show ?thesis
  proof cases
    case 1
    have "\<not> (\<exists>sep d v'. z = sep # d # v' \<and> commaOrPeriod sep \<and> isDigit d)"
      using z by auto
    then have "parseFraction z = (0, z)"
      using parseFraction_cases [of z 0 z] by blast
    moreover have "threeDigits (0 div 1000000) = ''000''"
      by (simp add: threeDigits_def digitChar_0)
    ultimately show ?thesis using 1 by simp
  next
    case 2
    have "parseFraction (sep # ds @ z) = (parseNanoseconds ds, z)"
      unfolding parseFraction_cases using 2 z by (auto simp: commaOrPeriod_def)
    moreover have "parseNanoseconds ds < 1000000000"
      using 2(4) by (rule parseNanoseconds_bound)
    moreover have "threeDigits (parseNanoseconds ds div 1000000) = take 3 (ds @ ''000'')"
      using 2(3,4) by (rule millis_text)
    ultimately show ?thesis using 2(1) by simp
  qed
qed

lemma hour_parse:
  assumes "digits 1 hour \<or> digits 2 hour"
  shows "getnum (hour @ CHR '':'' # rest) False = Some (decimal 0 hour, CHR '':'' # rest)
         \<and> (decimal 0 hour < 100 \<longrightarrow>
              twoDigits (decimal 0 hour) = (if length hour = 1 then ''0'' @ hour else hour))"
proof -
  from assms consider a where "hour = [a]" "isDigit a" | a b where "hour = [a, b]" "isDigit a" "isDigit b"
    unfolding digits_1 digits_2 by blast
  then show ?thesis
  proof cases
    case 1
    have "getnum (a # CHR '':'' # rest) False = Some (digitVal a, CHR '':'' # rest)"
      unfolding getnum_free_Some using 1(2) by (simp add: not_digit_punct)
    then show ?thesis using 1 by (simp add: twoDigits_text1)
  next
    case 2
    have "getnum (a # b # CHR '':'' # rest) False = Some (digitVal a * 10 + digitVal b, CHR '':'' # rest)"
      unfolding getnum_free_Some using 2(2,3) by simp
    then show ?thesis using 2 by (simp add: twoDigits_text)
  qed
qed

lemma two_parse:
  assumes "digits 2 s"
  shows "getnum (s @ rest) True = Some (decimal 0 s, rest) \<and> twoDigits (decimal 0 s) = s"
proof -
  from assms obtain a b where s: "s = [a, b]" and d: "isDigit a" "isDigit b"
    by (auto simp: digits_2)
  have "getnum (a # b # rest) True = Some (digitVal a * 10 + digitVal b, rest)"
    unfolding getnum_fixed_Some using d by simp
  then show ?thesis using s d by (simp add: twoDigits_text)
qed

lemma rfc3339_clock_parses:
  assumes "rfc3339_clock ts shown"
  shows "\<exists>t. time_Parse_RFC3339 ts = Some t \<and> Format_milli t = shown"
proof -
  from assms obtain year month day hour minute second fraction zone where
    ts: "ts = year @ ''-'' @ month @ ''-'' @ day @ ''T'' @ hour @ '':'' @ minute @ '':'' @ second
             @ fraction @ zone"
    and y: "digits 4 year" and mo: "digits 2 month" and d: "digits 2 day"
    and h: "digits 1 hour \<or> digits 2 hour" and mi: "digits 2 minute" and s: "digits 2 second"
    and f: "fractionText fraction" and z: "zoneText zone"
    and rmo: "1 \<le> decimal 0 month \<and> decimal 0 month \<le> 12"
    and rd: "1 \<le> decimal 0 day \<and> decimal 0 day \<le> daysIn (decimal 0 month) (decimal 0 year)"
    and rh: "decimal 0 hour < 24" and rmi: "decimal 0 minute < 60" and rs: "decimal 0 second < 60"
    and sh: "shown = (if length hour = 1 then ''0'' @ hour else hour) @ '':'' @ minute @ '':'' @ second
                   @ ''.'' @ take 3 (drop 1 fraction @ ''000'')"
    unfolding rfc3339_clock_def by blast
  obtain off where pz: "parseZone zone = Some (off, [])"
    and zn: "zone \<noteq> []" "\<not> isDigit (hd zone)" "\<not> commaOrPeriod (hd zone)"
    using zoneText_parse [OF z] by blast
  obtain nsec where pf: "parseFraction (fraction @ zone) = (nsec, zone)"
    and nb: "nsec < 1000000000"
    and nt: "threeDigits (nsec div 1000000) = take 3 (drop 1 fraction @ ''000'')"
    using fractionText_parse [OF f zn] by blast
  define t where "t = \<lparr>Year = decimal 0 year, Month = decimal 0 month, Day = decimal 0 day,
      Hour = decimal 0 hour, Minute = decimal 0 minute, Second = decimal 0 second,
      Nanosecond = nsec, Offset = off\<rparr>"
  have py: "\<And>rest. parseYear (year @ rest) = Some (decimal 0 year, rest)"
    unfolding parseYear_Some using y by blast
  have "time_Parse_RFC3339 ts = Some t"
    unfolding time_Parse_RFC3339_def ts t_def
    using rmo rd rh rmi rs
    by (simp add: py skip_def two_parse [OF mo] two_parse [OF d] two_parse [OF mi] two_parse [OF s]
        hour_parse [OF h] pf pz check_def)
  moreover have "validClock t"
    using rh rmi rs nb by (simp add: validClock_def t_def)
  then have "Format_milli t = clockText (Hour t) (Minute t) (Second t) (Nanosecond t div 1000000)"
    by (rule Format_milli_clockText)
  then have "Format_milli t = shown"
    using hour_parse [OF h, of "[]"] rh two_parse [OF mi, of "[]"] two_parse [OF s, of "[]"] nt
    by (simp add: clockText_def t_def sh)
  ultimately show ?thesis by blast
qed

lemma bind_SomeE:
  "Option.bind m f = Some y \<Longrightarrow> (\<And>x. m = Some x \<Longrightarrow> f x = Some y \<Longrightarrow> P) \<Longrightarrow> P"
  by (cases m) auto

lemma check_SomeE:
  "Option.bind (check b) f = Some y \<Longrightarrow> (b \<Longrightarrow> f () = Some y \<Longrightarrow> P) \<Longrightarrow> P"
  by (cases b) (auto simp: check_def)

lemma parse_steps:
  assumes 1: "parseYear ts = Some (year, v1)"
    and 2: "skip v1 (CHR ''-'') = Some v2"
    and 3: "getnum v2 True = Some (month, v3)"
    and 4: "1 \<le> month \<and> month \<le> 12"
    and 5: "skip v3 (CHR ''-'') = Some v4"
    and 6: "getnum v4 True = Some (day, v5)"
    and 7: "skip v5 (CHR ''T'') = Some v6"
    and 8: "getnum v6 False = Some (hour, v7)"
    and 9: "hour < 24"
    and 10: "skip v7 (CHR '':'') = Some v8"
    and 11: "getnum v8 True = Some (minute, v9)"
    and 12: "minute < 60"
    and 13: "skip v9 (CHR '':'') = Some v10"
    and 14: "getnum v10 True = Some (sec, v11)"
    and 15: "sec < 60"
    and 16: "Some (parseFraction v11) = Some (nsec, v12)"
    and 17: "parseZone v12 = Some (offset, v13)"
    and 18: "v13 = []"
    and 19: "1 \<le> day \<and> day \<le> daysIn month year"
  shows "\<exists>shown. rfc3339_clock ts shown"
proof -
  from 1 obtain yt where yt: "ts = yt @ v1" "digits 4 yt" "year = decimal 0 yt"
    unfolding parseYear_Some by blast
  from 2 have v1: "v1 = CHR ''-'' # v2" by (simp add: skip_Some)
  from 3 obtain m1 m2 where mt: "v2 = [m1, m2] @ v3" "digits 2 [m1, m2]" "month = decimal 0 [m1, m2]"
    unfolding getnum_fixed_Some by (auto simp: digits_2)
  from 5 have v3: "v3 = CHR ''-'' # v4" by (simp add: skip_Some)
  from 6 obtain d1 d2 where dt: "v4 = [d1, d2] @ v5" "digits 2 [d1, d2]" "day = decimal 0 [d1, d2]"
    unfolding getnum_fixed_Some by (auto simp: digits_2)
  from 7 have v5: "v5 = CHR ''T'' # v6" by (simp add: skip_Some)
  from 8 obtain ht where ht: "v6 = ht @ v7" "digits 1 ht \<or> digits 2 ht" "hour = decimal 0 ht"
  proof -
    from 8 consider a b where "v6 = a # b # v7" "isDigit a" "isDigit b" "hour = digitVal a * 10 + digitVal b"
      | a where "v6 = a # v7" "isDigit a" "hour = digitVal a"
      unfolding getnum_free_Some by blast
    then show ?thesis
    proof cases
      case 1
      then have "v6 = [a, b] @ v7" "digits 2 [a, b]" "hour = decimal 0 [a, b]"
        by (simp_all add: digits_2)
      then show ?thesis using that by blast
    next
      case 2
      then have "v6 = [a] @ v7" "digits 1 [a]" "hour = decimal 0 [a]"
        by (simp_all add: digits_def)
      then show ?thesis using that by blast
    qed
  qed
  from 10 have v7: "v7 = CHR '':'' # v8" by (simp add: skip_Some)
  from 11 obtain i1 i2 where it: "v8 = [i1, i2] @ v9" "digits 2 [i1, i2]" "minute = decimal 0 [i1, i2]"
    unfolding getnum_fixed_Some by (auto simp: digits_2)
  from 13 have v9: "v9 = CHR '':'' # v10" by (simp add: skip_Some)
  from 14 obtain s1 s2 where st: "v10 = [s1, s2] @ v11" "digits 2 [s1, s2]" "sec = decimal 0 [s1, s2]"
    unfolding getnum_fixed_Some by (auto simp: digits_2)
  from 16 have pf: "parseFraction v11 = (nsec, v12)" by simp
  obtain ft where ft: "v11 = ft @ v12" "fractionText ft"
  proof -
    from pf consider "v12 = v11"
      | sep ds where "v11 = sep # ds @ v12" "commaOrPeriod sep" "ds \<noteq> []" "list_all isDigit ds"
      unfolding parseFraction_cases by blast
    then show ?thesis
    proof cases
      case 1
      then have "v11 = [] @ v12" "fractionText []" by (simp_all add: fractionText_def)
      then show ?thesis using that by blast
    next
      case 2
      then have "v11 = (sep # ds) @ v12" "fractionText (sep # ds)"
        by (simp_all add: fractionText_def commaOrPeriod_def)
      then show ?thesis using that by blast
    qed
  qed
  have zt: "zoneText v12"
  proof -
    from 17 18 consider "v12 = ''Z''"
      | sg a b c d where "v12 = sg # a # b # CHR '':'' # c # d # []" "sg = CHR ''+'' \<or> sg = CHR ''-''"
          "isDigit a" "isDigit b" "isDigit c" "isDigit d"
      unfolding parseZone_Some by blast
    then show ?thesis
    proof cases
      case 1
      then show ?thesis by (simp add: zoneText_def)
    next
      case 2
      then have "v12 = sg # [a, b] @ '':'' @ [c, d]" "digits 2 [a, b]" "digits 2 [c, d]"
        by (simp_all add: digits_2)
      with 2(2) show ?thesis unfolding zoneText_def by blast
    qed
  qed
  let ?shown = "(if length ht = 1 then ''0'' @ ht else ht) @ '':'' @ [i1, i2] @ '':'' @ [s1, s2]
                   @ ''.'' @ take 3 (drop 1 ft @ ''000'')"
  have whole: "ts = yt @ ''-'' @ [m1, m2] @ ''-'' @ [d1, d2] @ ''T'' @ ht @ '':'' @ [i1, i2] @ '':''
      @ [s1, s2] @ ft @ v12"
    by (simp add: yt(1) v1 mt(1) v3 dt(1) v5 ht(1) v7 it(1) v9 st(1) ft(1))
  have "rfc3339_clock ts ?shown"
    unfolding rfc3339_clock_def
    apply (rule exI [of _ yt], rule exI [of _ "[m1, m2]"], rule exI [of _ "[d1, d2]"])
    apply (rule exI [of _ ht], rule exI [of _ "[i1, i2]"], rule exI [of _ "[s1, s2]"])
    apply (rule exI [of _ ft], rule exI [of _ v12])
    apply (intro conjI)
    apply (rule whole)
    apply (rule yt(2))
    apply (rule mt(2))
    apply (rule dt(2))
    apply (rule ht(2))
    apply (rule it(2))
    apply (rule st(2))
    apply (rule ft(2))
    apply (rule zt)
    using 4 9 12 15 19 yt(3) mt(3) dt(3) ht(3) it(3) st(3)
    apply simp_all
    done
  then show ?thesis by blast
qed

lemma time_Parse_rfc3339_clock:
  assumes "time_Parse_RFC3339 ts = Some t"
  shows "\<exists>shown. rfc3339_clock ts shown"
  using assms unfolding time_Parse_RFC3339_def
  apply -
  apply (erule bind_SomeE, simp only: split_paired_all prod.case)
  apply (erule bind_SomeE)
  apply (erule bind_SomeE, simp only: split_paired_all prod.case)
  apply (erule check_SomeE)
  apply (erule bind_SomeE)
  apply (erule bind_SomeE, simp only: split_paired_all prod.case)
  apply (erule bind_SomeE)
  apply (erule bind_SomeE, simp only: split_paired_all prod.case)
  apply (erule check_SomeE)
  apply (erule bind_SomeE)
  apply (erule bind_SomeE, simp only: split_paired_all prod.case)
  apply (erule check_SomeE)
  apply (erule bind_SomeE)
  apply (erule bind_SomeE, simp only: split_paired_all prod.case)
  apply (erule check_SomeE)
  apply (erule bind_SomeE, simp only: split_paired_all prod.case)
  apply (erule bind_SomeE, simp only: split_paired_all prod.case)
  apply (erule check_SomeE)
  apply (erule check_SomeE)
  apply (rule parse_steps, assumption+)
  done

lemma rfc3339_clock_iff:
  "rfc3339_clock ts shown \<longleftrightarrow> (\<exists>t. time_Parse_RFC3339 ts = Some t \<and> Format_milli t = shown)"
proof
  assume "rfc3339_clock ts shown"
  then show "\<exists>t. time_Parse_RFC3339 ts = Some t \<and> Format_milli t = shown"
    by (rule rfc3339_clock_parses)
next
  assume "\<exists>t. time_Parse_RFC3339 ts = Some t \<and> Format_milli t = shown"
  then obtain t where t: "time_Parse_RFC3339 ts = Some t" "Format_milli t = shown" by blast
  from t(1) obtain shown' where s: "rfc3339_clock ts shown'"
    using time_Parse_rfc3339_clock by blast
  then obtain t' where "time_Parse_RFC3339 ts = Some t'" "Format_milli t' = shown'"
    using rfc3339_clock_parses by blast
  with t have "shown' = shown" by simp
  with s show "rfc3339_clock ts shown" by simp
qed

lemma printPrettyLog_timestamp:
  "\<exists>rest. printPrettyLog env now log = Some (timestamp_field env now log @ rest)"
proof (cases "isHTTPAccess log")
  case True
  then show ?thesis
    by (simp add: printPrettyLog_http http_access_template_def)
next
  case False
  then show ?thesis
    by (simp add: printPrettyLog_generic generic_template_def)
qed


lemma example_offset_clock:
  "rfc3339_clock ''2025-06-28T09:05:07.123456+02:00'' ''09:05:07.123''"
proof -
  have d: "list_all isDigit ''0123456789''"
    by (simp add: isDigit_def byte_def)
  have z: "zoneText ''+02:00''"
    unfolding zoneText_def
    apply (rule disjI2, rule exI [of _ "CHR ''+''"], rule exI [of _ "''02''"], rule exI [of _ "''00''"])
    using d apply (simp add: digits_def)
    done
  have f: "fractionText ''.123456''"
    unfolding fractionText_def
    apply (rule disjI2, rule exI [of _ "CHR ''.''"], rule exI [of _ "''123456''"])
    using d apply simp
    done
  have v: "digitVal (CHR ''0'') = 0" "digitVal (CHR ''2'') = 2" "digitVal (CHR ''5'') = 5"
    "digitVal (CHR ''6'') = 6" "digitVal (CHR ''7'') = 7" "digitVal (CHR ''8'') = 8"
    "digitVal (CHR ''9'') = 9"
    by (simp_all add: digitVal_def byte_def)
  show ?thesis
    unfolding rfc3339_clock_def
    apply (rule exI [of _ "''2025''"], rule exI [of _ "''06''"], rule exI [of _ "''28''"])
    apply (rule exI [of _ "''09''"], rule exI [of _ "''05''"], rule exI [of _ "''07''"])
    apply (rule exI [of _ "''.123456''"], rule exI [of _ "''+02:00''"])
    using d z f apply (simp add: digits_def v daysIn_def)
    done
qed

lemma example_bad_zone_clock:
  "\<not> rfc3339_clock ''2025-06-28T09:05:07.123+0200'' shown"
proof -
  have "time_Parse_RFC3339 ''2025-06-28T09:05:07.123+0200'' = None"
    by code_simp
  then show ?thesis by (simp add: rfc3339_clock_iff)
qed

lemma absent_clock: "\<not> rfc3339_clock [] shown"
  by (simp add: rfc3339_clock_def)


text \<open>Which lines \<open>json.Unmarshal\<close> refuses: those that are not JSON, and those whose
  value does not fit the type of the record.\<close>

lemma json_Unmarshal_fails_iff:
  "(\<exists>err. json_Unmarshal line = Inl err) \<longleftrightarrow>
      (case json_parse line of None \<Rightarrow> True | Some j \<Rightarrow> \<not> fits LogEntry_type j)"
proof (cases "json_parse line")
  case None
  then show ?thesis by (simp add: json_Unmarshal_def)
next
  case (Some j)
  obtain v e where st: "store LogEntry_type j (zeroValue LogEntry_type) = (v, e)"
    by (cases "store LogEntry_type j (zeroValue LogEntry_type)")
  have "(e = None) = fits LogEntry_type j"
    using store_error_iff(1) [of LogEntry_type j "zeroValue LogEntry_type"] st by simp
  then show ?thesis
    using Some st by (cases e) (simp_all add: json_Unmarshal_def)
qed

section \<open>The claims\<close>

text \<open>
  Claim C1. Every decoded record is rendered with one of two templates: with the HTTP
  access template exactly when its category is \<open>http\<close> and its HTTP request method is
  not empty, and with the generic template otherwise. There is no third branch.
\<close>

theorem C1_two_way_classification:
  "printPrettyLog env now log =
     Some (if Category log = ''http'' \<and> Method (Request (HTTP log)) \<noteq> []
           then http_access_template env now log
           else generic_template env now log)"
  using printPrettyLog_http [of log env now] printPrettyLog_generic [of log env now]
  by (simp add: isHTTPAccess_def)

theorem C1_two_way_classification_witness:
  "\<forall>ff lower trim now.
     printPrettyLog (noColor ff lower trim) now example_http =
       Some ''11:50:07.000 [info] POST 200 /api/users 1250ms ua=curl/8.7.1 access logs\<newline>''
     \<and> printPrettyLog (noColor ff lower trim) now example_error =
       Some ''11:50:00.000 [erro] DB failed error=map[code:TIMEOUT]\<newline>''"
proof (intro allI conjI)
  fix ff lower trim now
  show "printPrettyLog (noColor ff lower trim) now example_http =
      Some ''11:50:07.000 [info] POST 200 /api/users 1250ms ua=curl/8.7.1 access logs\<newline>''"
    by (subst C1_two_way_classification) code_simp
  show "printPrettyLog (noColor ff lower trim) now example_error =
      Some ''11:50:00.000 [erro] DB failed error=map[code:TIMEOUT]\<newline>''"
    by (subst C1_two_way_classification) code_simp
qed

text \<open>
  Claim C2. The claim says that every line that is a JSON object decodes, and that a value
  of the wrong type in one field does not send the line down the decode-failure path. The
  program does not do this: the line below is valid JSON and an object, its message is
  readable, yet the string where \<open>process.pid\<close> wants a number makes
  \<open>json.Unmarshal\<close> return an \<open>UnmarshalTypeError\<close>, and \<open>main\<close> treats every error
  as "not valid JSON" and echoes the raw line. With the number 12 in the same place the
  line is formatted.
\<close>

theorem C2_type_mismatch:
  \<open>json_parse ''{"message":"ok","process":{"pid":"12"}}'' =
     Some (JObject [(''message'', JString ''ok''),
                    (''process'', JObject [(''pid'', JString ''12'')])])
   \<and> json_Unmarshal ''{"message":"ok","process":{"pid":"12"}}'' =
     Inl (UnmarshalTypeError ''string'')
   \<and> processLine plainEnv example_now ''{"message":"ok","process":{"pid":"12"}}'' =
     Some ''{"message":"ok","process":{"pid":"12"}}\<newline>''
   \<and> processLine plainEnv example_now ''{"message":"ok","process":{"pid":12}}'' =
     Some ''07:08:09.012 [    ] ok\<newline>''\<close>
  by (intro conjI; code_simp)

text \<open>
  Claim C3, as amended. When the program processes its input and every line is shorter
  than 65536 bytes, its output is the concatenation, in the order of the input, of one
  piece for each input line; each piece is what the loop body writes for that line, it
  ends with a newline, and it holds no other newline when the line does not decode or when
  none of the fields shown (and no colour markup) holds one.
\<close>

theorem C3_one_chunk_per_line:
  assumes "streamMode w"
    and "\<forall>l \<in> set (rawLines (Stdin w)). length l < 65536"
  shows "main env w =
           Some \<lparr>stdout = concat (map (\<lambda>(i, l). renderLine env (Now w i) l)
                                      (enumerate 0 (inputLines (Stdin w)))),
                 stderr = [], exitCode = 0\<rparr>
         \<and> (\<forall>(i, l) \<in> set (enumerate 0 (inputLines (Stdin w))).
              processLine env (Now w i) l = Some (renderLine env (Now w i) l)
              \<and> renderLine env (Now w i) l \<noteq> []
              \<and> last (renderLine env (Now w i) l) = CHR 0x0A
              \<and> (oneLiner env l \<longrightarrow> count_list (renderLine env (Now w i) l) (CHR 0x0A) = 1))"
proof (intro conjI)
  show "main env w =
      Some \<lparr>stdout = concat (map (\<lambda>(i, l). renderLine env (Now w i) l)
                                 (enumerate 0 (inputLines (Stdin w)))),
            stderr = [], exitCode = 0\<rparr>"
    using assms by (intro main_stream) (simp_all add: MaxScanTokenSize_def)
  show "\<forall>(i, l) \<in> set (enumerate 0 (inputLines (Stdin w))).
      processLine env (Now w i) l = Some (renderLine env (Now w i) l)
      \<and> renderLine env (Now w i) l \<noteq> []
      \<and> last (renderLine env (Now w i) l) = CHR 0x0A
      \<and> (oneLiner env l \<longrightarrow> count_list (renderLine env (Now w i) l) (CHR 0x0A) = 1)"
  proof (clarify, intro conjI impI)
    fix i l
    assume m: "(i, l) \<in> set (enumerate 0 (inputLines (Stdin w)))"
    then have "l \<in> set (inputLines (Stdin w))"
      by (auto simp: in_set_enumerate_eq)
    then have nl: "CHR 0x0A \<notin> set l" by (rule inputLines_no_newline)
    show "processLine env (Now w i) l = Some (renderLine env (Now w i) l)"
      by (rule processLine_renderLine)
    show "renderLine env (Now w i) l \<noteq> []"
      using renderLine_end [of env "Now w i" l] by simp
    show "last (renderLine env (Now w i) l) = CHR 0x0A"
      using renderLine_end [of env "Now w i" l] by simp
    assume "oneLiner env l"
    then show "count_list (renderLine env (Now w i) l) (CHR 0x0A) = 1"
      using nl by (rule renderLine_oneLiner)
  qed
qed

theorem C3_one_chunk_per_line_witness:
  "main plainEnv (example_world (example_http_line @ ''\<newline>plain text'' @ [CHR 0x0D]
       @ ''\<newline>'' @ example_error_line)) =
     Some \<lparr>stdout =
             ''11:50:07.000 [info] POST 200 /api/users 1250ms ua=curl/8.7.1 access logs\<newline>''
             @ ''plain text\<newline>''
             @ ''11:50:00.000 [erro] DB failed error=map[code:TIMEOUT]\<newline>'',
           stderr = [], exitCode = 0\<rparr>"
proof -
  let ?w = "example_world (example_http_line @ ''\<newline>plain text'' @ [CHR 0x0D]
       @ ''\<newline>'' @ example_error_line)"
  have sm: "streamMode ?w"
    by (simp add: streamMode_def example_world_def)
  have rl: "rawLines (Stdin ?w) = [example_http_line, ''plain text'' @ [CHR 0x0D], example_error_line]"
    by code_simp
  have len: "length example_http_line < 65536" "length example_error_line < 65536"
    by code_simp+
  have short: "\<forall>l \<in> set (rawLines (Stdin ?w)). length l < 65536"
    unfolding rl using len by simp
  show ?thesis
    by (subst conjunct1 [OF C3_one_chunk_per_line [OF sm short]]) code_simp
qed

text \<open>
  The claim as it was stated fails: a single input line whose message holds a newline
  gives two lines of output; and after a line of 65536 bytes the scanner stops with
  \<open>ErrTooLong\<close>, so that neither this line nor the next one is written.
\<close>

theorem C3_counterexample:
  \<open>rawLines (''{"message":"a'' @ [CHR 0x5C] @ ''nb"}\<newline>'') =
       [''{"message":"a'' @ [CHR 0x5C] @ ''nb"}'']
   \<and> main plainEnv (example_world (''{"message":"a'' @ [CHR 0x5C] @ ''nb"}\<newline>'')) =
       Some \<lparr>stdout = ''07:08:09.012 [    ] a\<newline>b\<newline>'', stderr = [], exitCode = 0\<rparr>
   \<and> count_list ''07:08:09.012 [    ] a\<newline>b\<newline>'' (CHR 0x0A) = 2
   \<and> rawLines (longLine @ ''\<newline>{}\<newline>'') = [longLine, ''{}'']
   \<and> main plainEnv (example_world (longLine @ ''\<newline>{}\<newline>'')) =
       Some \<lparr>stdout = [],
             stderr = ''Error reading from stdin: bufio.Scanner: token too long\<newline>'',
             exitCode = 1\<rparr>\<close>
proof (intro conjI)
  show \<open>rawLines (''{"message":"a'' @ [CHR 0x5C] @ ''nb"}\<newline>'') =
       [''{"message":"a'' @ [CHR 0x5C] @ ''nb"}'']\<close>
    by code_simp
  show \<open>main plainEnv (example_world (''{"message":"a'' @ [CHR 0x5C] @ ''nb"}\<newline>'')) =
       Some \<lparr>stdout = ''07:08:09.012 [    ] a\<newline>b\<newline>'', stderr = [], exitCode = 0\<rparr>\<close>
    by code_simp
  show \<open>count_list ''07:08:09.012 [    ] a\<newline>b\<newline>'' (CHR 0x0A) = 2\<close>
    by simp
  show "rawLines (longLine @ ''\<newline>{}\<newline>'') = [longLine, ''{}'']"
    by (rule rawLines_longLine)
  show "main plainEnv (example_world (longLine @ ''\<newline>{}\<newline>'')) =
       Some \<lparr>stdout = [],
             stderr = ''Error reading from stdin: bufio.Scanner: token too long\<newline>'',
             exitCode = 1\<rparr>"
    by (rule main_longLine)
qed

text \<open>
  Claim C4, as amended. A line that fails to decode is printed as it is when it has at
  most 120 bytes; a longer one is cut to its first 120 bytes, followed by three dots (123
  bytes in all). The length of a line is its length in bytes, as \<open>len\<close> counts it, not
  its number of characters.
\<close>

theorem C4_unparsed_line:
  assumes "json_Unmarshal line = Inl err"
  shows "processLine env now line =
           Some (if length line > 120 then take 120 line @ ''...'' @ ''\<newline>''
                 else line @ ''\<newline>'')
         \<and> (length line > 120 \<longrightarrow> length (take 120 line @ ''...'') = 123)"
  using assms by (simp add: processLine_def Sprintf_cut fmt_Println_def)

theorem C4_unparsed_line_witness:
  "\<forall>env now.
     processLine env now (replicate 150 (CHR ''a'')) = Some (replicate 120 (CHR ''a'') @ ''...\<newline>'')
     \<and> processLine env now ''plain text'' = Some ''plain text\<newline>''"
proof (intro allI conjI)
  fix env now
  have long: "json_Unmarshal (replicate 150 (CHR ''a'')) = Inl SyntaxError"
    by code_simp
  have short: "json_Unmarshal ''plain text'' = Inl SyntaxError"
    by code_simp
  show "processLine env now (replicate 150 (CHR ''a'')) = Some (replicate 120 (CHR ''a'') @ ''...\<newline>'')"
    using C4_unparsed_line [OF long, of env now] by simp
  show "processLine env now ''plain text'' = Some ''plain text\<newline>''"
    using C4_unparsed_line [OF short, of env now] by simp
qed

text \<open>
  The claim as it was stated, with lengths in characters, fails: a line of 100 characters
  of two bytes each does not exceed 120 characters, yet it is cut, after its 60th
  character; and a cut can fall inside a character, leaving its first byte alone.
\<close>

theorem C4_counterexample:
  "RuneCountInString (concat (replicate 100 eacute)) = 100
   \<and> length (concat (replicate 100 eacute)) = 200
   \<and> json_Unmarshal (concat (replicate 100 eacute)) = Inl SyntaxError
   \<and> processLine plainEnv example_now (concat (replicate 100 eacute)) =
       Some (concat (replicate 60 eacute) @ ''...\<newline>'')
   \<and> RuneCountInString (''a'' @ concat (replicate 60 eacute)) = 61
   \<and> processLine plainEnv example_now (''a'' @ concat (replicate 60 eacute)) =
       Some (''a'' @ concat (replicate 59 eacute) @ [CHR 0xC3] @ ''...\<newline>'')"
  by (intro conjI; code_simp)

text \<open>
  Claim C5. The line of a decoded record starts with a time of day in the form
  \<open>HH:MM:SS.mmm\<close>. When the timestamp is a text that is read as RFC 3339, it is the time
  written in that text: its hour, minute and second, and the first three digits of its
  fraction. When the timestamp is absent or is no such text, it is the current time.
  Nothing aborts: there is always an output, with hours below 24, minutes and seconds
  below 60 and three digits of milliseconds.
\<close>

theorem C5_timestamp:
  assumes "validClock now"
  shows "(\<forall>shown. rfc3339_clock (Timestamp log) shown \<longrightarrow>
            (\<exists>rest. printPrettyLog env now log = Some (color_wrap env [FgCyan] shown @ rest)))
         \<and> ((\<forall>shown. \<not> rfc3339_clock (Timestamp log) shown) \<longrightarrow>
            (\<exists>rest. printPrettyLog env now log =
               Some (color_wrap env [FgCyan]
                       (clockText (Hour now) (Minute now) (Second now) (Nanosecond now div 1000000))
                     @ rest)))
         \<and> (\<exists>h m s ms rest.
               h < 24 \<and> m < 60 \<and> s < 60 \<and> ms < 1000
               \<and> printPrettyLog env now log =
                   Some (color_wrap env [FgCyan] (clockText h m s ms) @ rest))"
proof (intro conjI allI impI)
  fix shown
  assume "rfc3339_clock (Timestamp log) shown"
  then obtain t where "time_Parse_RFC3339 (Timestamp log) = Some t" "Format_milli t = shown"
    using rfc3339_clock_parses by blast
  then have "timestamp_field env now log = color_wrap env [FgCyan] shown"
    by (simp add: timestamp_field_def displayTime_def)
  then show "\<exists>rest. printPrettyLog env now log = Some (color_wrap env [FgCyan] shown @ rest)"
    using printPrettyLog_timestamp [of env now log] by simp
next
  assume "\<forall>shown. \<not> rfc3339_clock (Timestamp log) shown"
  then have "time_Parse_RFC3339 (Timestamp log) = None"
    using time_Parse_rfc3339_clock [of "Timestamp log"] by (cases "time_Parse_RFC3339 (Timestamp log)") auto
  then have "timestamp_field env now log = color_wrap env [FgCyan]
      (clockText (Hour now) (Minute now) (Second now) (Nanosecond now div 1000000))"
    using Format_milli_clockText [OF assms] by (simp add: timestamp_field_def displayTime_def)
  then show "\<exists>rest. printPrettyLog env now log =
      Some (color_wrap env [FgCyan]
              (clockText (Hour now) (Minute now) (Second now) (Nanosecond now div 1000000)) @ rest)"
    using printPrettyLog_timestamp [of env now log] by simp
next
  define t where "t = displayTime now log"
  have v: "validClock t"
    using assms time_Parse_valid [of "Timestamp log"]
    by (auto simp: t_def displayTime_def split: option.splits)
  then have ms: "Nanosecond t div 1000000 < 1000"
    by (simp add: validClock_def div_less_iff_less_mult)
  have "timestamp_field env now log =
      color_wrap env [FgCyan] (clockText (Hour t) (Minute t) (Second t) (Nanosecond t div 1000000))"
    using Format_milli_clockText [OF v] by (simp add: timestamp_field_def t_def)
  then obtain rest where "printPrettyLog env now log =
      Some (color_wrap env [FgCyan] (clockText (Hour t) (Minute t) (Second t) (Nanosecond t div 1000000))
            @ rest)"
    using printPrettyLog_timestamp [of env now log] by auto
  then show "\<exists>h m s ms rest.
      h < 24 \<and> m < 60 \<and> s < 60 \<and> ms < 1000
      \<and> printPrettyLog env now log = Some (color_wrap env [FgCyan] (clockText h m s ms) @ rest)"
    using v ms unfolding validClock_def by blast
qed

theorem C5_timestamp_witness:
  "\<forall>ff lower trim.
     validClock example_now
     \<and> rfc3339_clock (Timestamp example_offset) ''09:05:07.123''
     \<and> (\<exists>rest. printPrettyLog (noColor ff lower trim) example_now example_offset
                  = Some (''09:05:07.123'' @ rest))
     \<and> (\<forall>shown. \<not> rfc3339_clock (Timestamp example_bad_zone) shown)
     \<and> (\<exists>rest. printPrettyLog (noColor ff lower trim) example_now example_bad_zone
                  = Some (''07:08:09.012'' @ rest))
     \<and> (\<forall>shown. \<not> rfc3339_clock (Timestamp LogEntry_zero) shown)
     \<and> (\<exists>rest. printPrettyLog (noColor ff lower trim) example_now LogEntry_zero
                  = Some (''07:08:09.012'' @ rest))"
proof (intro allI conjI)
  fix ff lower trim
  let ?env = "noColor ff lower trim"
  show v: "validClock example_now"
    by code_simp
  show r: "rfc3339_clock (Timestamp example_offset) ''09:05:07.123''"
    using example_offset_clock by (simp add: example_offset_def LogEntry_zero_def)
  show b: "\<not> rfc3339_clock (Timestamp example_bad_zone) shown" for shown
    using example_bad_zone_clock by (simp add: example_bad_zone_def LogEntry_zero_def)
  show a: "\<not> rfc3339_clock (Timestamp LogEntry_zero) shown" for shown
    using absent_clock by (simp add: LogEntry_zero_def)
  have c: "clockText (Hour example_now) (Minute example_now) (Second example_now)
      (Nanosecond example_now div 1000000) = ''07:08:09.012''"
    by code_simp
  show "\<exists>rest. printPrettyLog ?env example_now example_offset = Some (''09:05:07.123'' @ rest)"
    using C5_timestamp [OF v, of example_offset ?env, THEN conjunct1] r by (auto simp: noColor_def)
  show "\<exists>rest. printPrettyLog ?env example_now example_bad_zone = Some (''07:08:09.012'' @ rest)"
    using C5_timestamp [OF v, of example_bad_zone ?env, THEN conjunct2, THEN conjunct1] b c
    by (auto simp: noColor_def)
  show "\<exists>rest. printPrettyLog ?env example_now LogEntry_zero = Some (''07:08:09.012'' @ rest)"
    using C5_timestamp [OF v, of LogEntry_zero ?env, THEN conjunct2, THEN conjunct1] a c
    by (auto simp: noColor_def)
qed

text \<open>
  Claim C6. A record rendered with the generic template gives the timestamp, the level in
  brackets and the message; the suffix \<open>error=\<close> with the printed error value follows
  exactly when the error field is not nil, whatever value it holds.
\<close>

theorem C6_generic_line:
  assumes "\<not> (Category log = ''http'' \<and> Method (Request (HTTP log)) \<noteq> [])"
  shows "printPrettyLog env now log =
           Some (timestamp_field env now log @ '' ['' @ level_field env log @ ''] ''
                 @ message_field env log
                 @ (case Error log of
                      None \<Rightarrow> []
                    | Some x \<Rightarrow>
                        '' '' @ color_wrap env [FgRed, Bold]
                                 (''error='' @ printValue (formatFloat env) x))
                 @ ''\<newline>'')"
  using assms printPrettyLog_generic [of log env now]
  by (simp add: isHTTPAccess_def generic_template_def error_suffix_def)

theorem C6_generic_line_witness:
  "\<forall>ff lower trim.
     printPrettyLog (noColor ff lower trim) example_now example_error
       = Some ''11:50:00.000 [erro] DB failed error=map[code:TIMEOUT]\<newline>''
     \<and> printPrettyLog (noColor ff lower trim) example_now example_text
       = Some ''07:08:09.012 [warn] Rate limit approaching error=slow down\<newline>''
     \<and> printPrettyLog (noColor ff lower trim) example_now LogEntry_zero
       = Some ''07:08:09.012 [    ] \<newline>''"
proof (intro allI conjI)
  fix ff lower trim
  have g1: "\<not> (Category example_error = ''http'' \<and> Method (Request (HTTP example_error)) \<noteq> [])"
    by code_simp
  have g2: "\<not> (Category example_text = ''http'' \<and> Method (Request (HTTP example_text)) \<noteq> [])"
    by code_simp
  have g3: "\<not> (Category LogEntry_zero = ''http'' \<and> Method (Request (HTTP LogEntry_zero)) \<noteq> [])"
    by code_simp
  show "printPrettyLog (noColor ff lower trim) example_now example_error
      = Some ''11:50:00.000 [erro] DB failed error=map[code:TIMEOUT]\<newline>''"
    by (subst C6_generic_line [OF g1]) code_simp
  show "printPrettyLog (noColor ff lower trim) example_now example_text
      = Some ''07:08:09.012 [warn] Rate limit approaching error=slow down\<newline>''"
    by (subst C6_generic_line [OF g2]) code_simp
  show "printPrettyLog (noColor ff lower trim) example_now LogEntry_zero
      = Some ''07:08:09.012 [    ] \<newline>''"
    by (subst C6_generic_line [OF g3]) code_simp
qed

text \<open>
  Claim C7. In a line rendered with the HTTP access template the duration is the
  nanosecond value divided by 1000000, as an integer quotient (Go truncates it towards
  zero), followed by \<open>ms\<close>; 1250000000 gives \<open>1250ms\<close>.
\<close>

theorem C7_duration_milliseconds:
  assumes "Category log = ''http''" and "Method (Request (HTTP log)) \<noteq> []"
  shows "printPrettyLog env now log =
           Some (timestamp_field env now log @ '' ['' @ level_field env log @ ''] ''
                 @ method_field env log @ '' '' @ status_field env log @ '' ''
                 @ path_field env log @ '' ''
                 @ color_wrap env [FgYellow]
                     (showInt (sint (Duration (Event log)) sdiv 1000000) @ ''ms'')
                 @ '' '' @ user_agent_field env log @ '' '' @ message_field env log
                 @ ''\<newline>'')
         \<and> (Duration (Event log) = 1250000000 \<longrightarrow>
              showInt (sint (Duration (Event log)) sdiv 1000000) @ ''ms'' = ''1250ms'')"
proof -
  have "isHTTPAccess log" using assms by (simp add: isHTTPAccess_def)
  then have "printPrettyLog env now log = Some (http_access_template env now log)"
    by (rule printPrettyLog_http)
  moreover have "showInt (sint (1250000000 :: 64 word) sdiv 1000000) @ ''ms'' = ''1250ms''"
    by code_simp
  ultimately show ?thesis
    by (simp add: http_access_template_def duration_field_def)
qed

theorem C7_duration_milliseconds_witness:
  "\<forall>ff lower trim now.
     Duration (Event example_http) = 1250000000
     \<and> printPrettyLog (noColor ff lower trim) now example_http =
         Some ''11:50:07.000 [info] POST 200 /api/users 1250ms ua=curl/8.7.1 access logs\<newline>''"
proof (intro allI conjI)
  fix ff lower trim now
  have c: "Category example_http = ''http''"
    by code_simp
  have m: "Method (Request (HTTP example_http)) \<noteq> []"
    by code_simp
  show "Duration (Event example_http) = 1250000000"
    by code_simp
  show "printPrettyLog (noColor ff lower trim) now example_http =
      Some ''11:50:07.000 [info] POST 200 /api/users 1250ms ua=curl/8.7.1 access logs\<newline>''"
    by (subst conjunct1 [OF C7_duration_milliseconds [OF c m]]) code_simp
qed

text \<open>
  Claim C8, as amended. In a line rendered with the HTTP access template a user agent
  longer than 50 bytes is cut to its first 50 bytes, and then prefixed with \<open>ua=\<close>; a
  user agent of at most 50 bytes is shown whole. Lengths are in bytes, not in characters.
\<close>

theorem C8_user_agent:
  assumes "Category log = ''http''" and "Method (Request (HTTP log)) \<noteq> []"
  shows "printPrettyLog env now log =
           Some (timestamp_field env now log @ '' ['' @ level_field env log @ ''] ''
                 @ method_field env log @ '' '' @ status_field env log @ '' ''
                 @ path_field env log @ '' '' @ duration_field env log @ '' ''
                 @ color_wrap env [FgBlue]
                     (''ua='' @ (if length (UserAgent.Original (UserAgent log)) > 50
                                then take 50 (UserAgent.Original (UserAgent log))
                                else UserAgent.Original (UserAgent log)))
                 @ '' '' @ message_field env log @ ''\<newline>'')
         \<and> (length (UserAgent.Original (UserAgent log)) > 50 \<longrightarrow>
              length (take 50 (UserAgent.Original (UserAgent log))) = 50)"
proof -
  have "isHTTPAccess log" using assms by (simp add: isHTTPAccess_def)
  then have "printPrettyLog env now log = Some (http_access_template env now log)"
    by (rule printPrettyLog_http)
  then show ?thesis
    by (simp add: http_access_template_def user_agent_field_def)
qed

theorem C8_user_agent_witness:
  "\<forall>ff lower trim now.
     printPrettyLog (noColor ff lower trim) now
       (example_http\<lparr>UserAgent := \<lparr>UserAgent.Original = replicate 60 (CHR ''x'')\<rparr>\<rparr>) =
         Some (''11:50:07.000 [info] POST 200 /api/users 1250ms ua='' @ replicate 50 (CHR ''x'')
               @ '' access logs\<newline>'')
     \<and> printPrettyLog (noColor ff lower trim) now example_http =
         Some ''11:50:07.000 [info] POST 200 /api/users 1250ms ua=curl/8.7.1 access logs\<newline>''"
proof (intro allI conjI)
  fix ff lower trim now
  let ?long = "example_http\<lparr>UserAgent := \<lparr>UserAgent.Original = replicate 60 (CHR ''x'')\<rparr>\<rparr>"
  have c: "Category example_http = ''http''"
    by code_simp
  have m: "Method (Request (HTTP example_http)) \<noteq> []"
    by code_simp
  have c': "Category ?long = ''http''"
    by code_simp
  have m': "Method (Request (HTTP ?long)) \<noteq> []"
    by code_simp
  show "printPrettyLog (noColor ff lower trim) now ?long =
      Some (''11:50:07.000 [info] POST 200 /api/users 1250ms ua='' @ replicate 50 (CHR ''x'')
            @ '' access logs\<newline>'')"
    by (subst conjunct1 [OF C8_user_agent [OF c' m']]) code_simp
  show "printPrettyLog (noColor ff lower trim) now example_http =
      Some ''11:50:07.000 [info] POST 200 /api/users 1250ms ua=curl/8.7.1 access logs\<newline>''"
    by (subst conjunct1 [OF C8_user_agent [OF c m]]) code_simp
qed

text \<open>
  The claim as it was stated, with lengths in characters, fails: a user agent of exactly
  50 characters whose last character has two bytes is not shown whole; it loses the
  second byte of that character.
\<close>

theorem C8_counterexample:
  "RuneCountInString (replicate 49 (CHR ''x'') @ eacute) = 50
   \<and> length (replicate 49 (CHR ''x'') @ eacute) = 51
   \<and> printPrettyLog plainEnv example_now
        (example_http\<lparr>UserAgent := \<lparr>UserAgent.Original = replicate 49 (CHR ''x'') @ eacute\<rparr>\<rparr>) =
       Some (''11:50:07.000 [info] POST 200 /api/users 1250ms ua='' @ replicate 49 (CHR ''x'')
             @ [CHR 0xC3] @ '' access logs\<newline>'')"
  by (intro conjI; code_simp)

text \<open>
  Claim C9. The two copies of \<open>printPrettyLog\<close> are not equivalent: the current one
  divides the duration by 1000000, the older one by 1000, and there is an HTTP access
  record with a duration other than 0 for which they show different numbers of
  milliseconds.
\<close>

theorem C9_two_formatters:
  "(\<forall>env now log.
      Category log = ''http'' \<and> Method (Request (HTTP log)) \<noteq> [] \<longrightarrow>
        printPrettyLog env now log =
          Some (timestamp_field env now log @ '' ['' @ level_field env log @ ''] ''
                @ method_field env log @ '' '' @ status_field env log @ '' ''
                @ path_field env log @ '' ''
                @ color_wrap env [FgYellow]
                    (showInt (sint (Duration (Event log)) sdiv 1000000) @ ''ms'')
                @ '' '' @ user_agent_field env log @ '' '' @ message_field env log
                @ ''\<newline>'')
        \<and> printPrettyLog_old env now log =
          Some (http_access_template_old env now log (sint (Duration (Event log)) sdiv 1000)))
   \<and> (\<exists>log.
        Category log = ''http'' \<and> Method (Request (HTTP log)) \<noteq> []
        \<and> Duration (Event log) \<noteq> 0
        \<and> showInt (sint (Duration (Event log)) sdiv 1000000) = ''1250''
        \<and> showInt (sint (Duration (Event log)) sdiv 1000) = ''1250000''
        \<and> (\<forall>ff lower trim now.
              printPrettyLog (noColor ff lower trim) now log =
                Some ''11:50:07.000 [info] POST 200 /api/users 1250ms ua=curl/8.7.1 access logs\<newline>''
              \<and> printPrettyLog_old (noColor ff lower trim) now log =
                Some ''11:50:07 [info ] POST 200 /api/users from= 1250000ms ua=curl/8.7.1\<newline>''))"
proof (intro conjI allI impI exI [of _ example_http])
  fix env now and log :: LogEntry
  assume a: "Category log = ''http'' \<and> Method (Request (HTTP log)) \<noteq> []"
  then have h: "isHTTPAccess log" by (simp add: isHTTPAccess_def)
  show "printPrettyLog env now log =
      Some (timestamp_field env now log @ '' ['' @ level_field env log @ ''] ''
            @ method_field env log @ '' '' @ status_field env log @ '' ''
            @ path_field env log @ '' ''
            @ color_wrap env [FgYellow]
                (showInt (sint (Duration (Event log)) sdiv 1000000) @ ''ms'')
            @ '' '' @ user_agent_field env log @ '' '' @ message_field env log
            @ ''\<newline>'')"
    using printPrettyLog_http [OF h, of env now]
    by (simp add: http_access_template_def duration_field_def)
  show "printPrettyLog_old env now log =
      Some (http_access_template_old env now log (sint (Duration (Event log)) sdiv 1000))"
    using h by (rule printPrettyLog_old_http)
next
  show "Category example_http = ''http''"
    by code_simp
  show "Method (Request (HTTP example_http)) \<noteq> []"
    by code_simp
  show "Duration (Event example_http) \<noteq> 0"
    by code_simp
  show "showInt (sint (Duration (Event example_http)) sdiv 1000000) = ''1250''"
    by code_simp
  show "showInt (sint (Duration (Event example_http)) sdiv 1000) = ''1250000''"
    by code_simp
next
  fix ff lower trim now
  show "printPrettyLog (noColor ff lower trim) now example_http =
      Some ''11:50:07.000 [info] POST 200 /api/users 1250ms ua=curl/8.7.1 access logs\<newline>''"
    by (subst printPrettyLog_http [OF example_http_isHTTPAccess]) code_simp
  show "printPrettyLog_old (noColor ff lower trim) now example_http =
      Some ''11:50:07 [info ] POST 200 /api/users from= 1250000ms ua=curl/8.7.1\<newline>''"
    by (subst printPrettyLog_old_http [OF example_http_isHTTPAccess]) code_simp
qed

theorem C9_two_formatters_witness:
  "\<forall>ff lower trim now.
     printPrettyLog (noColor ff lower trim) now example_http =
       Some ''11:50:07.000 [info] POST 200 /api/users 1250ms ua=curl/8.7.1 access logs\<newline>''
     \<and> printPrettyLog_old (noColor ff lower trim) now example_http =
       Some ''11:50:07 [info ] POST 200 /api/users from= 1250000ms ua=curl/8.7.1\<newline>''"
proof (intro allI conjI)
  fix ff lower trim now
  have c: "Category example_http = ''http'' \<and> Method (Request (HTTP example_http)) \<noteq> []"
    by code_simp
  note both = C9_two_formatters [THEN conjunct1, rule_format, OF c]
  show "printPrettyLog (noColor ff lower trim) now example_http =
      Some ''11:50:07.000 [info] POST 200 /api/users 1250ms ua=curl/8.7.1 access logs\<newline>''"
    by (subst conjunct1 [OF both]) code_simp
  show "printPrettyLog_old (noColor ff lower trim) now example_http =
      Some ''11:50:07 [info ] POST 200 /api/users from= 1250000ms ua=curl/8.7.1\<newline>''"
    by (subst conjunct2 [OF both]) code_simp
qed

text \<open>
  Claim C10, as amended. For a line that decodes and whose timestamp is read as RFC 3339,
  the output does not depend on the clock: with the same colour setting (and the same
  formatting libraries), two runs of the loop body with different readings of
  \<open>time.Now()\<close> write the same text.
\<close>

theorem C10_independent_of_clock:
  assumes "json_Unmarshal line = Inr log"
    and "rfc3339_clock (Timestamp log) shown"
  shows "processLine env now line = processLine env now' line"
proof -
  obtain t where "time_Parse_RFC3339 (Timestamp log) = Some t"
    using assms(2) rfc3339_clock_parses by blast
  with assms(1) show ?thesis by (simp add: processLine_def printPrettyLog_def)
qed

theorem C10_independent_of_clock_witness:
  "\<forall>env now now'. processLine env now example_http_line = processLine env now' example_http_line"
proof (intro allI)
  fix env now now'
  have "time_Parse_RFC3339 (Timestamp example_http) =
      Some \<lparr>Year = 2025, Month = 6, Day = 28, Hour = 11, Minute = 50, Second = 7,
            Nanosecond = 0, Offset = 0\<rparr>"
    by code_simp
  moreover have "Format_milli \<lparr>Year = 2025, Month = 6, Day = 28, Hour = 11, Minute = 50, Second = 7,
            Nanosecond = 0, Offset = 0\<rparr> = ''11:50:07.000''"
    by code_simp
  ultimately have r: "rfc3339_clock (Timestamp example_http) ''11:50:07.000''"
    by (simp add: rfc3339_clock_iff)
  show "processLine env now example_http_line = processLine env now' example_http_line"
    using example_http_decoded r by (rule C10_independent_of_clock)
qed

text \<open>
  The claim as it was stated, with the output a function of the line alone, fails: the
  colour setting is ambient state of the process, and the same line, with a timestamp
  that is read, is written without markup in one run and with escape sequences in
  another.
\<close>

theorem C10_counterexample:
  "json_Unmarshal example_http_line = Inr example_http
   \<and> rfc3339_clock (Timestamp example_http) ''11:50:07.000''
   \<and> processLine plainEnv example_now example_http_line =
       Some ''11:50:07.000 [info] POST 200 /api/users 1250ms ua=curl/8.7.1 access logs\<newline>''
   \<and> processLine ansiEnv example_now example_http_line =
       Some ([CHR 0x1B] @ ''[36m11:50:07.000'' @ [CHR 0x1B] @ ''[0m [''
             @ [CHR 0x1B] @ ''[34minfo'' @ [CHR 0x1B] @ ''[0m] ''
             @ [CHR 0x1B] @ ''[35;1mPOST'' @ [CHR 0x1B] @ ''[0;22m ''
             @ [CHR 0x1B] @ ''[32m200'' @ [CHR 0x1B] @ ''[0m ''
             @ [CHR 0x1B] @ ''[32m/api/users'' @ [CHR 0x1B] @ ''[0m ''
             @ [CHR 0x1B] @ ''[33m1250ms'' @ [CHR 0x1B] @ ''[0m ''
             @ [CHR 0x1B] @ ''[34mua=curl/8.7.1'' @ [CHR 0x1B] @ ''[0m ''
             @ [CHR 0x1B] @ ''[37maccess logs'' @ [CHR 0x1B] @ ''[0m\<newline>'')"
proof (intro conjI)
  show "json_Unmarshal example_http_line = Inr example_http"
    by (rule example_http_decoded)
  have "time_Parse_RFC3339 (Timestamp example_http) =
      Some \<lparr>Year = 2025, Month = 6, Day = 28, Hour = 11, Minute = 50, Second = 7,
            Nanosecond = 0, Offset = 0\<rparr>"
    by code_simp
  moreover have "Format_milli \<lparr>Year = 2025, Month = 6, Day = 28, Hour = 11, Minute = 50, Second = 7,
            Nanosecond = 0, Offset = 0\<rparr> = ''11:50:07.000''"
    by code_simp
  ultimately show "rfc3339_clock (Timestamp example_http) ''11:50:07.000''"
    by (simp add: rfc3339_clock_iff)
  show "processLine plainEnv example_now example_http_line =
       Some ''11:50:07.000 [info] POST 200 /api/users 1250ms ua=curl/8.7.1 access logs\<newline>''"
    by code_simp
  show "processLine ansiEnv example_now example_http_line =
       Some ([CHR 0x1B] @ ''[36m11:50:07.000'' @ [CHR 0x1B] @ ''[0m [''
             @ [CHR 0x1B] @ ''[34minfo'' @ [CHR 0x1B] @ ''[0m] ''
             @ [CHR 0x1B] @ ''[35;1mPOST'' @ [CHR 0x1B] @ ''[0;22m ''
             @ [CHR 0x1B] @ ''[32m200'' @ [CHR 0x1B] @ ''[0m ''
             @ [CHR 0x1B] @ ''[32m/api/users'' @ [CHR 0x1B] @ ''[0m ''
             @ [CHR 0x1B] @ ''[33m1250ms'' @ [CHR 0x1B] @ ''[0m ''
             @ [CHR 0x1B] @ ''[34mua=curl/8.7.1'' @ [CHR 0x1B] @ ''[0m ''
             @ [CHR 0x1B] @ ''[37maccess logs'' @ [CHR 0x1B] @ ''[0m\<newline>'')"
    by code_simp
qed

end
